theory Spec2Isabelle
  imports Main
begin

section \<open>The native Date primitive\<close>

text \<open>
  \<^verbatim>\<open>NativeDateHelper.js\<close> wraps the JavaScript \<^verbatim>\<open>Date\<close> object. The class itself is
  embedded in the next sections; this section models the part of \<^verbatim>\<open>Date\<close> that the class
  calls, following the abstract operations of ECMA-262 (Date objects): \<^verbatim>\<open>Day\<close>,
  \<^verbatim>\<open>TimeWithinDay\<close>, \<^verbatim>\<open>DaysInYear\<close>, \<^verbatim>\<open>DayFromYear\<close>, \<^verbatim>\<open>YearFromTime\<close>,
  \<^verbatim>\<open>MonthFromTime\<close>, \<^verbatim>\<open>DateFromTime\<close>, \<^verbatim>\<open>MakeDay\<close>, \<^verbatim>\<open>MakeDate\<close>, \<^verbatim>\<open>TimeClip\<close>,
  \<^verbatim>\<open>LocalTime\<close> and \<^verbatim>\<open>UTC\<close>.

  A Number that holds a calendar field or a time value is an integer or \<^verbatim>\<open>NaN\<close>; it is
  modelled as \<open>int option\<close> with \<open>None\<close> for \<^verbatim>\<open>NaN\<close>. Time values are bounded by
  \<open>8.64 * 10^15 < 2^53\<close>, so the doubles of the runtime hold them exactly. Integer
  division and remainder of HOL (\<open>div\<close>, \<open>mod\<close>) round towards minus infinity, as
  \<^verbatim>\<open>floor\<close> and the \<^verbatim>\<open>modulo\<close> of ECMA-262 do.
\<close>

type_synonym js_num = "int option"

definition msPerDay :: int where
  "msPerDay = 86400000"

definition Day :: "int \<Rightarrow> int" where
  "Day t = t div msPerDay"

definition TimeWithinDay :: "int \<Rightarrow> int" where
  "TimeWithinDay t = t mod msPerDay"

definition DaysInYear :: "int \<Rightarrow> int" where
  "DaysInYear y =
     (if y mod 4 \<noteq> 0 then 365
      else if y mod 100 \<noteq> 0 then 366
      else if y mod 400 \<noteq> 0 then 365
      else 366)"

definition DayFromYear :: "int \<Rightarrow> int" where
  "DayFromYear y =
     365 * (y - 1970) + (y - 1969) div 4 - (y - 1901) div 100 + (y - 1601) div 400"

text \<open>
  ECMA-262 defines \<^verbatim>\<open>YearFromTime(t)\<close> as the largest integer \<open>y\<close> with
  \<^verbatim>\<open>TimeFromYear(y) <= t\<close>. The executable form below starts from the estimate given by
  the mean length of a Gregorian year (146097 days in 400 years) and corrects it by at most
  one year; lemma \<open>YearFromDay_unique\<close> shows that it is the year of the standard.
\<close>

definition YearFromDay :: "int \<Rightarrow> int" where
  "YearFromDay d =
     (let y = 1970 + (400 * d) div 146097 in
      if d < DayFromYear y then y - 1
      else if DayFromYear (y + 1) \<le> d then y + 1
      else y)"

definition YearFromTime :: "int \<Rightarrow> int" where
  "YearFromTime t = YearFromDay (Day t)"

definition InLeapYear :: "int \<Rightarrow> int" where
  "InLeapYear t = (if DaysInYear (YearFromTime t) = 366 then 1 else 0)"

definition DayWithinYear :: "int \<Rightarrow> int" where
  "DayWithinYear t = Day t - DayFromYear (YearFromTime t)"

definition MonthFromTime :: "int \<Rightarrow> int" where
  "MonthFromTime t =
     (let d = DayWithinYear t; l = InLeapYear t in
      if d < 31 then 0
      else if d < 59 + l then 1
      else if d < 90 + l then 2
      else if d < 120 + l then 3
      else if d < 151 + l then 4
      else if d < 181 + l then 5
      else if d < 212 + l then 6
      else if d < 243 + l then 7
      else if d < 273 + l then 8
      else if d < 304 + l then 9
      else if d < 334 + l then 10
      else 11)"

definition DateFromTime :: "int \<Rightarrow> int" where
  "DateFromTime t =
     (let d = DayWithinYear t; l = InLeapYear t; m = MonthFromTime t in
      if m = 0 then d + 1
      else if m = 1 then d - 30
      else if m = 2 then d - 58 - l
      else if m = 3 then d - 89 - l
      else if m = 4 then d - 119 - l
      else if m = 5 then d - 150 - l
      else if m = 6 then d - 180 - l
      else if m = 7 then d - 211 - l
      else if m = 8 then d - 242 - l
      else if m = 9 then d - 272 - l
      else if m = 10 then d - 303 - l
      else d - 333 - l)"

text \<open>
  \<^verbatim>\<open>MakeDay(year, month, date)\<close> normalises the month into the year
  (\<open>ym = year + floor(month / 12)\<close>, \<open>mn = month modulo 12\<close>), finds the day number of the
  first day of month \<open>mn\<close> of year \<open>ym\<close> and adds \<open>date - 1\<close>. This is the carry of the
  field setters: month 12 is January of the next year, day 0 the last day of the month
  before. \<open>DaysBeforeMonth\<close> is the day within the year of the first day of a month.
\<close>

definition DaysBeforeMonth :: "int \<Rightarrow> int \<Rightarrow> int" where
  "DaysBeforeMonth mn l =
     (if mn = 0 then 0
      else if mn = 1 then 31
      else if mn = 2 then 59 + l
      else if mn = 3 then 90 + l
      else if mn = 4 then 120 + l
      else if mn = 5 then 151 + l
      else if mn = 6 then 181 + l
      else if mn = 7 then 212 + l
      else if mn = 8 then 243 + l
      else if mn = 9 then 273 + l
      else if mn = 10 then 304 + l
      else 334 + l)"

definition MakeDay :: "int \<Rightarrow> int \<Rightarrow> int \<Rightarrow> int" where
  "MakeDay yr month dt =
     (let ym = yr + month div 12;
          mn = month mod 12;
          l = (if DaysInYear ym = 366 then 1 else 0)
      in DayFromYear ym + DaysBeforeMonth mn l + dt - 1)"

definition MakeDate :: "int \<Rightarrow> int \<Rightarrow> int" where
  "MakeDate dy tm = dy * msPerDay + tm"

definition TimeClip :: "int \<Rightarrow> js_num" where
  "TimeClip t = (if \<bar>t\<bar> > 8640000000000000 then None else Some t)"

text \<open>
  What the class sees of the runtime it runs in: the offset of local time from UTC in
  milliseconds (\<^verbatim>\<open>LocalTZA\<close>; a zone without daylight-saving shifts, so one offset for all
  instants), the time value \<^verbatim>\<open>new Date()\<close> returns, and the result of \<^verbatim>\<open>new Date(s)\<close> on
  a string \<open>s\<close> that is not a calendar date in the four-digit-year form \<^verbatim>\<open>YYYY-MM-DD\<close>.
  ECMA-262 leaves that result to the implementation for every string outside its
  date-time format, and engines differ on a day beyond the month's length, such as
  \<^verbatim>\<open>2023-02-31\<close>; the class can also build the expanded-year form for years far in the
  past. All of these go to \<open>parseOther\<close>, which is a parameter: the theorems below hold
  for every choice of it, the behaviour of the standard included.
\<close>

record runtime =
  LocalTZA :: int
  currentTime :: int
  parseOther :: "string \<Rightarrow> js_num"

definition LocalTime :: "runtime \<Rightarrow> int \<Rightarrow> int" where
  "LocalTime env t = t + LocalTZA env"

definition UTC :: "runtime \<Rightarrow> int \<Rightarrow> int" where
  "UTC env t = t - LocalTZA env"

subsection \<open>The methods of Date the class calls\<close>

text \<open>A \<^verbatim>\<open>Date\<close> object is its time value (\<^verbatim>\<open>[[DateValue]]\<close>): \<open>None\<close> is the Invalid Date.\<close>

definition Date_getFullYear :: "runtime \<Rightarrow> js_num \<Rightarrow> js_num" where
  "Date_getFullYear env tv = map_option (\<lambda>t. YearFromTime (LocalTime env t)) tv"

definition Date_getMonth :: "runtime \<Rightarrow> js_num \<Rightarrow> js_num" where
  "Date_getMonth env tv = map_option (\<lambda>t. MonthFromTime (LocalTime env t)) tv"

definition Date_getDate :: "runtime \<Rightarrow> js_num \<Rightarrow> js_num" where
  "Date_getDate env tv = map_option (\<lambda>t. DateFromTime (LocalTime env t)) tv"

definition Date_getTime :: "js_num \<Rightarrow> js_num" where
  "Date_getTime tv = tv"

definition Date_getTimezoneOffset :: "runtime \<Rightarrow> js_num \<Rightarrow> js_num" where
  "Date_getTimezoneOffset env tv = map_option (\<lambda>t. (t - LocalTime env t) div 60000) tv"

text \<open>
  \<^verbatim>\<open>setFullYear(y)\<close> revives an Invalid Date from time value \<open>+0\<close>; \<^verbatim>\<open>setMonth\<close> and
  \<^verbatim>\<open>setDate\<close> leave it invalid. The month and day arguments the class never passes are
  taken from the current value, as the standard says.
\<close>

definition Date_setFullYear :: "runtime \<Rightarrow> js_num \<Rightarrow> js_num \<Rightarrow> js_num" where
  "Date_setFullYear env y tv =
     (case y of
        None \<Rightarrow> None
      | Some yv \<Rightarrow>
          (let t = (case tv of None \<Rightarrow> 0 | Some t0 \<Rightarrow> LocalTime env t0) in
           TimeClip (UTC env (MakeDate (MakeDay yv (MonthFromTime t) (DateFromTime t))
                                       (TimeWithinDay t)))))"

definition Date_setMonth :: "runtime \<Rightarrow> js_num \<Rightarrow> js_num \<Rightarrow> js_num" where
  "Date_setMonth env m tv =
     (case tv of
        None \<Rightarrow> None
      | Some t0 \<Rightarrow>
          (case m of
             None \<Rightarrow> None
           | Some mv \<Rightarrow>
               (let t = LocalTime env t0 in
                TimeClip (UTC env (MakeDate (MakeDay (YearFromTime t) mv (DateFromTime t))
                                            (TimeWithinDay t))))))"

definition Date_setDate :: "runtime \<Rightarrow> js_num \<Rightarrow> js_num \<Rightarrow> js_num" where
  "Date_setDate env dt tv =
     (case tv of
        None \<Rightarrow> None
      | Some t0 \<Rightarrow>
          (case dt of
             None \<Rightarrow> None
           | Some dv \<Rightarrow>
               (let t = LocalTime env t0 in
                TimeClip (UTC env (MakeDate (MakeDay (YearFromTime t) (MonthFromTime t) dv)
                                            (TimeWithinDay t))))))"

text \<open>
  \<^verbatim>\<open>toString()\<close> of a Date is the text \<^verbatim>\<open>Invalid Date\<close> exactly when the time value is
  \<^verbatim>\<open>NaN\<close>; the class only compares the text with that literal.
\<close>

definition Date_toString_is_Invalid_Date :: "js_num \<Rightarrow> bool" where
  "Date_toString_is_Invalid_Date tv = (tv = None)"

subsection \<open>Strings and numbers\<close>

text \<open>
  Template literals turn a Number into text with \<^verbatim>\<open>ToString\<close>: decimal digits with a
  leading minus sign for an integer (all calendar fields are far below \<open>10^21\<close>, where the
  exponent notation starts) and \<^verbatim>\<open>NaN\<close> for the invalid value. Every string the class
  builds or accepts as an ISO date is ASCII, so a character list counts what
  \<^verbatim>\<open>length\<close> counts in JavaScript.
\<close>

definition digit_char :: "nat \<Rightarrow> char" where
  "digit_char n = ''0123456789'' ! n"

fun string_of_nat :: "nat \<Rightarrow> string" where
  "string_of_nat n =
     (if n < 10 then [digit_char n] else string_of_nat (n div 10) @ [digit_char (n mod 10)])"

definition Number_toString :: "js_num \<Rightarrow> string" where
  "Number_toString x =
     (case x of
        None \<Rightarrow> ''NaN''
      | Some i \<Rightarrow> if i < 0 then ''-'' @ string_of_nat (nat (- i)) else string_of_nat (nat i))"

definition is_digit :: "char \<Rightarrow> bool" where
  "is_digit c = (c \<in> set ''0123456789'')"

text \<open>The value of a digit is its position in the digit string.\<close>

definition digit_val :: "char \<Rightarrow> int" where
  "digit_val c = int (length (takeWhile (\<lambda>d. d \<noteq> c) ''0123456789''))"

definition digits_val :: "string \<Rightarrow> int" where
  "digits_val cs = foldl (\<lambda>acc c. 10 * acc + digit_val c) 0 cs"

text \<open>\<^verbatim>\<open>s.split("-")\<close> and \<^verbatim>\<open>items.join("-")\<close>.\<close>

fun split_on :: "char \<Rightarrow> string \<Rightarrow> string list" where
  "split_on c [] = [[]]"
| "split_on c (x # xs) =
     (if x = c then [] # split_on c xs
      else (case split_on c xs of
              [] \<Rightarrow> [[x]]
            | w # ws \<Rightarrow> (x # w) # ws))"

fun join_with :: "string \<Rightarrow> string list \<Rightarrow> string" where
  "join_with sep [] = []"
| "join_with sep [w] = w"
| "join_with sep (w # v # ws) = w @ sep @ join_with sep (v # ws)"

subsection \<open>Parsing a date string\<close>

text \<open>
  \<^verbatim>\<open>new Date(s)\<close> on the date-only form \<^verbatim>\<open>YYYY-MM-DD\<close> of the date-time string format is
  midnight UTC of that calendar date (a date-only form is read as UTC, not as local
  time). Every other string goes to the runtime's \<open>parseOther\<close>. \<open>daysInMonthOf\<close> is the
  length of a month of the runtime's calendar.
\<close>

definition daysInMonthOf :: "int \<Rightarrow> int \<Rightarrow> int" where
  "daysInMonthOf y m =
     (if m = 2 then (if DaysInYear y = 366 then 29 else 28)
      else if m = 4 \<or> m = 6 \<or> m = 9 \<or> m = 11 then 30
      else 31)"

definition parse_iso_date :: "string \<Rightarrow> (int \<times> int \<times> int) option" where
  "parse_iso_date s =
     (if length s = 10 \<and> s ! 4 = CHR ''-'' \<and> s ! 7 = CHR ''-''
         \<and> list_all is_digit (take 4 s)
         \<and> list_all is_digit (take 2 (drop 5 s))
         \<and> list_all is_digit (drop 8 s)
      then Some (digits_val (take 4 s), digits_val (take 2 (drop 5 s)), digits_val (drop 8 s))
      else None)"

definition Date_parse :: "runtime \<Rightarrow> string \<Rightarrow> js_num" where
  "Date_parse env s =
     (case parse_iso_date s of
        None \<Rightarrow> parseOther env s
      | Some (y, m, d) \<Rightarrow>
          if 1 \<le> m \<and> m \<le> 12 \<and> 1 \<le> d \<and> d \<le> daysInMonthOf y m
          then TimeClip (MakeDate (MakeDay y (m - 1) d) 0)
          else parseOther env s)"

subsection \<open>Regular expressions\<close>

text \<open>
  The pattern of \<^verbatim>\<open>isIso\<close> uses character classes, sequence, alternation and \<^verbatim>\<open>?\<close>, between
  \<^verbatim>\<open>^\<close> and \<^verbatim>\<open>$\<close>. A pattern is embedded as the function from an input to the list of
  inputs left after each way of matching a prefix; \<^verbatim>\<open>test\<close> succeeds when some way leaves
  nothing.
\<close>

type_synonym rx = "string \<Rightarrow> string list"

definition rx_class :: "string \<Rightarrow> rx" where
  "rx_class cs s = (case s of [] \<Rightarrow> [] | c # r \<Rightarrow> if c \<in> set cs then [r] else [])"

definition rx_seq :: "rx \<Rightarrow> rx \<Rightarrow> rx" where
  "rx_seq p q s = concat (map q (p s))"

definition rx_alt :: "rx \<Rightarrow> rx \<Rightarrow> rx" where
  "rx_alt p q s = p s @ q s"

definition rx_opt :: "rx \<Rightarrow> rx" where
  "rx_opt p s = p s @ [s]"

definition rx_test :: "rx \<Rightarrow> string \<Rightarrow> bool" where
  "rx_test p s = ([] \<in> set (p s))"

definition rx_digit :: rx where
  "rx_digit = rx_class ''0123456789''"

text \<open>\<^verbatim>\<open>(0?[1-9]|1[0-2])\<close>\<close>

definition rx_month :: rx where
  "rx_month =
     rx_alt (rx_seq (rx_opt (rx_class ''0'')) (rx_class ''123456789''))
            (rx_seq (rx_class ''1'') (rx_class ''012''))"

text \<open>\<^verbatim>\<open>(0?[1-9]|[12]\d|3[01])\<close>\<close>

definition rx_day :: rx where
  "rx_day =
     rx_alt (rx_seq (rx_opt (rx_class ''0'')) (rx_class ''123456789''))
       (rx_alt (rx_seq (rx_class ''12'') rx_digit)
               (rx_seq (rx_class ''3'') (rx_class ''01'')))"

text \<open>\<^verbatim>\<open>^([12]\d{3}-(0?[1-9]|1[0-2])-(0?[1-9]|[12]\d|3[01]))$\<close>\<close>

definition iso_regex :: rx where
  "iso_regex =
     rx_seq (rx_class ''12'') (rx_seq rx_digit (rx_seq rx_digit (rx_seq rx_digit
       (rx_seq (rx_class ''-'') (rx_seq rx_month (rx_seq (rx_class ''-'') rx_day))))))"

section \<open>The class NativeDate\<close>

subsection \<open>Values and instances\<close>

text \<open>
  The values a caller can pass to the constructor. \<open>JDate\<close> is a native \<^verbatim>\<open>Date\<close> with its
  time value; \<open>JObject\<close> is an object without a \<^verbatim>\<open>getFullYear\<close> method, such as \<^verbatim>\<open>{}\<close>
  or an array. Calling a method on \<^verbatim>\<open>null\<close> or calling a missing method throws a
  \<^verbatim>\<open>TypeError\<close>.
\<close>

datatype js_value =
    JUndefined
  | JNull
  | JBoolean bool
  | JNumber js_num
  | JString string
  | JDate js_num
  | JObject

datatype js_error = TypeError

definition typeof :: "js_value \<Rightarrow> string" where
  "typeof v =
     (case v of
        JUndefined \<Rightarrow> ''undefined''
      | JNull \<Rightarrow> ''object''
      | JBoolean b \<Rightarrow> ''boolean''
      | JNumber n \<Rightarrow> ''number''
      | JString s \<Rightarrow> ''string''
      | JDate tv \<Rightarrow> ''object''
      | JObject \<Rightarrow> ''object'')"

text \<open>
  The fields of an instance. \<open>generatedDate\<close> holds the wrapped \<^verbatim>\<open>Date\<close> (its time value).
\<close>

record NativeDate =
  generatedDate :: js_num
  dateString :: string
  isHealed :: bool

subsection \<open>Comparison and arithmetic of Numbers\<close>

text \<open>Every comparison with \<^verbatim>\<open>NaN\<close> is false, \<^verbatim>\<open>===\<close> included; arithmetic on it gives it.\<close>

definition js_gt :: "js_num \<Rightarrow> js_num \<Rightarrow> bool" where
  "js_gt a b = (case a of None \<Rightarrow> False | Some x \<Rightarrow> (case b of None \<Rightarrow> False | Some y \<Rightarrow> x > y))"

definition js_lt :: "js_num \<Rightarrow> js_num \<Rightarrow> bool" where
  "js_lt a b = (case a of None \<Rightarrow> False | Some x \<Rightarrow> (case b of None \<Rightarrow> False | Some y \<Rightarrow> x < y))"

definition js_ge :: "js_num \<Rightarrow> js_num \<Rightarrow> bool" where
  "js_ge a b = (case a of None \<Rightarrow> False | Some x \<Rightarrow> (case b of None \<Rightarrow> False | Some y \<Rightarrow> x \<ge> y))"

definition js_le :: "js_num \<Rightarrow> js_num \<Rightarrow> bool" where
  "js_le a b = (case a of None \<Rightarrow> False | Some x \<Rightarrow> (case b of None \<Rightarrow> False | Some y \<Rightarrow> x \<le> y))"

definition js_seq :: "js_num \<Rightarrow> js_num \<Rightarrow> bool" where
  "js_seq a b = (case a of None \<Rightarrow> False | Some x \<Rightarrow> (case b of None \<Rightarrow> False | Some y \<Rightarrow> x = y))"

definition js_add :: "js_num \<Rightarrow> js_num \<Rightarrow> js_num" where
  "js_add a b = (case a of None \<Rightarrow> None | Some x \<Rightarrow> (case b of None \<Rightarrow> None | Some y \<Rightarrow> Some (x + y)))"

definition js_sub :: "js_num \<Rightarrow> js_num \<Rightarrow> js_num" where
  "js_sub a b = (case a of None \<Rightarrow> None | Some x \<Rightarrow> (case b of None \<Rightarrow> None | Some y \<Rightarrow> Some (x - y)))"

text \<open>\<^verbatim>\<open>x % n\<close> for a positive integer \<open>n\<close>: the remainder has the sign of \<open>x\<close>.\<close>

definition js_rem :: "js_num \<Rightarrow> int \<Rightarrow> js_num" where
  "js_rem a n = (case a of None \<Rightarrow> None | Some x \<Rightarrow> Some (sgn x * (\<bar>x\<bar> mod n)))"

subsection \<open>Getters\<close>

definition date :: "NativeDate \<Rightarrow> js_num" where
  "date this = generatedDate this"

definition year :: "runtime \<Rightarrow> NativeDate \<Rightarrow> js_num" where
  "year env this = Date_getFullYear env (generatedDate this)"

definition month :: "runtime \<Rightarrow> NativeDate \<Rightarrow> js_num" where
  "month env this = js_add (Date_getMonth env (generatedDate this)) (Some 1)"

definition day :: "runtime \<Rightarrow> NativeDate \<Rightarrow> js_num" where
  "day env this = Date_getDate env (generatedDate this)"

definition time :: "NativeDate \<Rightarrow> js_num" where
  "time this = Date_getTime (generatedDate this)"

definition timezoneOffset :: "runtime \<Rightarrow> NativeDate \<Rightarrow> js_num" where
  "timezoneOffset env this = Date_getTimezoneOffset env (generatedDate this)"

subsection \<open>Helpers\<close>

definition addLeadingZeros :: "string \<Rightarrow> string" where
  "addLeadingZeros dateString' =
     (if length dateString' = 10 then dateString'
      else join_with ''-''
             (map (\<lambda>item. if length item = 1 then ''0'' @ item else item)
                  (split_on CHR ''-'' dateString')))"

definition toIso :: "js_num \<Rightarrow> js_num \<Rightarrow> js_num \<Rightarrow> string" where
  "toIso y m d =
     addLeadingZeros (Number_toString y @ ''-'' @ Number_toString m @ ''-'' @ Number_toString d)"

definition isoString :: "runtime \<Rightarrow> NativeDate \<Rightarrow> string" where
  "isoString env this = toIso (year env this) (month env this) (day env this)"

definition isLeapYear :: "js_num \<Rightarrow> bool" where
  "isLeapYear y =
     ((js_seq (js_rem y 4) (Some 0) \<and> \<not> js_seq (js_rem y 100) (Some 0))
      \<or> js_seq (js_rem y 400) (Some 0))"

definition daysInMonth :: "js_num \<Rightarrow> js_num \<Rightarrow> js_num" where
  "daysInMonth m y =
     (if js_seq m (Some 2) then (if isLeapYear y then Some 29 else Some 28)
      else if js_seq m (Some 9) \<or> js_seq m (Some 4) \<or> js_seq m (Some 6) \<or> js_seq m (Some 11)
      then Some 30
      else Some 31)"

text \<open>
  \<^verbatim>\<open>isDate\<close> returns false for everything whose \<^verbatim>\<open>typeof\<close> is not \<^verbatim>\<open>object\<close> and calls
  \<^verbatim>\<open>getFullYear()\<close> on everything else; \<^verbatim>\<open>typeof null\<close> is \<^verbatim>\<open>object\<close>.
\<close>

definition isDate :: "runtime \<Rightarrow> js_value \<Rightarrow> js_error + bool" where
  "isDate env potentialDate =
     (if typeof potentialDate \<noteq> ''object'' then Inr False
      else (case potentialDate of
              JDate tv \<Rightarrow> Inr (typeof (JNumber (Date_getFullYear env tv)) = ''number'')
            | _ \<Rightarrow> Inl TypeError))"

definition isIso :: "js_value \<Rightarrow> bool" where
  "isIso v =
     (case v of
        JString s \<Rightarrow> if s = [] then False else rx_test iso_regex s
      | _ \<Rightarrow> False)"

subsection \<open>Construction\<close>

text \<open>
  The constructor returns the new instance and what it wrote with \<^verbatim>\<open>console.warn\<close>, or the
  exception that left it. In the first branch the instance keeps the caller's \<^verbatim>\<open>Date\<close>.
\<close>

definition warn_if_invalid :: "NativeDate \<Rightarrow> string list" where
  "warn_if_invalid this =
     (if Date_toString_is_Invalid_Date (generatedDate this) then [''DATE is not valid Date'']
      else [])"

definition NativeDate_constructor ::
  "runtime \<Rightarrow> js_value \<Rightarrow> js_error + NativeDate \<times> string list" where
  "NativeDate_constructor env dateStringOrObject =
     (case isDate env dateStringOrObject of
        Inl e \<Rightarrow> Inl e
      | Inr True \<Rightarrow>
          (case dateStringOrObject of
             JDate tv \<Rightarrow>
               (let this = \<lparr>generatedDate = tv, dateString = [], isHealed = False\<rparr>;
                    this = this\<lparr>dateString := isoString env this\<rparr>
                in Inr (this, warn_if_invalid this))
           | _ \<Rightarrow> Inl TypeError)
      | Inr False \<Rightarrow>
          (if isIso dateStringOrObject then
             (case dateStringOrObject of
                JString s \<Rightarrow>
                  (let isoDateString = addLeadingZeros s;
                       this = \<lparr>generatedDate = Date_parse env isoDateString,
                               dateString = isoDateString, isHealed = False\<rparr>
                   in Inr (this, warn_if_invalid this))
              | _ \<Rightarrow> Inl TypeError)
           else
             (let this = \<lparr>generatedDate = Some (currentTime env), dateString = [],
                          isHealed = True\<rparr>
              in Inr (this, warn_if_invalid this))))"

definition nativeDateHelper ::
  "runtime \<Rightarrow> js_value \<Rightarrow> js_error + NativeDate \<times> string list" where
  "nativeDateHelper env dateString' = NativeDate_constructor env dateString'"

subsection \<open>Validation\<close>

definition isValidDateString :: "runtime \<Rightarrow> NativeDate \<Rightarrow> bool" where
  "isValidDateString env this =
     (let isoDate = toIso (year env this) (month env this) (day env this)
      in isoDate = dateString this)"

text \<open>
  \<open>generatedDate\<close> is an object, so it is truthy and its \<^verbatim>\<open>typeof\<close> is \<^verbatim>\<open>object\<close>: the
  guard of \<^verbatim>\<open>isValidDate\<close> is written as in the source and never returns early.
\<close>

definition isValidDate :: "runtime \<Rightarrow> NativeDate \<Rightarrow> bool" where
  "isValidDate env this =
     (let truthy = True in
      if \<not> truthy
         \<or> (truthy \<and> typeof (JDate (generatedDate this)) \<noteq> ''object''
             \<and> Date_toString_is_Invalid_Date (generatedDate this))
      then False
      else (let y = year env this; m = month env this; d = day env this in
            js_ge m (Some 1) \<and> js_le m (Some 12) \<and> js_gt d (Some 0)
            \<and> js_le d (daysInMonth m y)))"

subsection \<open>Comparison\<close>

definition isEqual :: "runtime \<Rightarrow> NativeDate \<Rightarrow> NativeDate \<Rightarrow> bool" where
  "isEqual env this secondDate =
     (js_seq (year env this) (year env secondDate)
      \<and> js_seq (month env this) (month env secondDate)
      \<and> js_seq (day env this) (day env secondDate))"

definition isBefore :: "runtime \<Rightarrow> NativeDate \<Rightarrow> NativeDate \<Rightarrow> bool" where
  "isBefore env this secondDate =
     (if js_gt (year env this) (year env secondDate) then True
      else if js_seq (year env this) (year env secondDate)
              \<and> js_gt (month env this) (month env secondDate) then True
      else js_seq (year env this) (year env secondDate)
           \<and> js_seq (month env this) (month env secondDate)
           \<and> js_gt (day env this) (day env secondDate))"

definition isAfter :: "runtime \<Rightarrow> NativeDate \<Rightarrow> NativeDate \<Rightarrow> bool" where
  "isAfter env this secondDate =
     (if js_lt (year env this) (year env secondDate) then True
      else if js_seq (year env this) (year env secondDate)
              \<and> js_lt (month env this) (month env secondDate) then True
      else js_seq (year env this) (year env secondDate)
           \<and> js_seq (month env this) (month env secondDate)
           \<and> js_lt (day env this) (day env secondDate))"

subsection \<open>Manipulation\<close>

text \<open>
  Each method changes the wrapped \<^verbatim>\<open>Date\<close> with a field setter and then replaces it by the
  \<^verbatim>\<open>Date\<close> parsed from the padded text of its local year, month and day. The model
  returns the instance after the call; the method's return value is its
  \<open>generatedDate\<close>.
\<close>

definition updateGeneratedDate :: "runtime \<Rightarrow> NativeDate \<Rightarrow> NativeDate" where
  "updateGeneratedDate env this =
     (let newDateString =
            Number_toString (year env this) @ ''-'' @ Number_toString (month env this)
            @ ''-'' @ Number_toString (day env this);
          isoDateString = addLeadingZeros newDateString
      in this\<lparr>dateString := isoDateString, generatedDate := Date_parse env isoDateString\<rparr>)"

definition addYear :: "runtime \<Rightarrow> int \<Rightarrow> NativeDate \<Rightarrow> NativeDate" where
  "addYear env number this =
     updateGeneratedDate env
       (this\<lparr>generatedDate :=
          Date_setFullYear env (js_add (year env this) (Some number)) (generatedDate this)\<rparr>)"

definition addMonth :: "runtime \<Rightarrow> int \<Rightarrow> NativeDate \<Rightarrow> NativeDate" where
  "addMonth env number this =
     updateGeneratedDate env
       (this\<lparr>generatedDate :=
          Date_setMonth env (js_add (month env this) (Some number)) (generatedDate this)\<rparr>)"

definition addDay :: "runtime \<Rightarrow> int \<Rightarrow> NativeDate \<Rightarrow> NativeDate" where
  "addDay env number this =
     updateGeneratedDate env
       (this\<lparr>generatedDate :=
          Date_setDate env (js_add (day env this) (Some number)) (generatedDate this)\<rparr>)"

definition subtractYear :: "runtime \<Rightarrow> int \<Rightarrow> NativeDate \<Rightarrow> NativeDate" where
  "subtractYear env number this =
     updateGeneratedDate env
       (this\<lparr>generatedDate :=
          Date_setFullYear env (js_sub (year env this) (Some number)) (generatedDate this)\<rparr>)"

definition subtractMonth :: "runtime \<Rightarrow> int \<Rightarrow> NativeDate \<Rightarrow> NativeDate" where
  "subtractMonth env number this =
     updateGeneratedDate env
       (this\<lparr>generatedDate :=
          Date_setMonth env (js_sub (month env this) (Some number)) (generatedDate this)\<rparr>)"

definition subtractDay :: "runtime \<Rightarrow> int \<Rightarrow> NativeDate \<Rightarrow> NativeDate" where
  "subtractDay env number this =
     updateGeneratedDate env
       (this\<lparr>generatedDate :=
          Date_setDate env (js_sub (day env this) (Some number)) (generatedDate this)\<rparr>)"

section \<open>Notions used in the statements\<close>

subsection \<open>Two concrete runtimes\<close>

text \<open>
  Two runtimes for concrete inputs: one whose local time is UTC and one five hours behind
  UTC (a zone of the Americas without daylight saving). In both, the current instant is
  2026-11-02T00:00:00Z and no string outside the ISO calendar form parses.
\<close>

definition runtime_utc :: runtime where
  "runtime_utc = \<lparr>LocalTZA = 0, currentTime = 1793577600000, parseOther = (\<lambda>s. None)\<rparr>"

definition runtime_utc_minus_5 :: runtime where
  "runtime_utc_minus_5 =
     \<lparr>LocalTZA = - 18000000, currentTime = 1793577600000, parseOther = (\<lambda>s. None)\<rparr>"

subsection \<open>The calendar of the specification\<close>

text \<open>
  The calendar rules as the specification words them: a year is a leap year when it is
  divisible by 4 and not by 100, or divisible by 400; February has 29 days in a leap year
  and 28 otherwise, April, June, September and November have 30, all other months 31.
\<close>

definition spec_isLeapYear :: "int \<Rightarrow> bool" where
  "spec_isLeapYear y = ((4 dvd y \<and> \<not> 100 dvd y) \<or> 400 dvd y)"

definition spec_daysInMonth :: "int \<Rightarrow> int \<Rightarrow> int" where
  "spec_daysInMonth m y =
     (if m = 2 then (if spec_isLeapYear y then 29 else 28)
      else if m = 4 \<or> m = 6 \<or> m = 9 \<or> m = 11 then 30
      else 31)"

subsection \<open>Canonical texts and day numbers\<close>

text \<open>What \<^verbatim>\<open>addLeadingZeros\<close> does to one item: a single character gets a leading zero.\<close>

definition pad2 :: "string \<Rightarrow> string" where
  "pad2 item = (if length item = 1 then ''0'' @ item else item)"

text \<open>
  The canonical text of a calendar date: the digits of the year, and month and day padded
  to two digits.
\<close>

definition canonical_iso :: "int \<Rightarrow> int \<Rightarrow> int \<Rightarrow> string" where
  "canonical_iso y m d =
     string_of_nat (nat y) @ ''-'' @ pad2 (string_of_nat (nat m)) @ ''-''
     @ pad2 (string_of_nat (nat d))"

text \<open>
  The calendar date of a day number (days since 1 January 1970), with the month counted
  from 1 as the class does, and its canonical text.
\<close>

definition civil_year :: "int \<Rightarrow> int" where
  "civil_year D = YearFromTime (D * msPerDay)"

definition civil_month :: "int \<Rightarrow> int" where
  "civil_month D = MonthFromTime (D * msPerDay) + 1"

definition civil_day :: "int \<Rightarrow> int" where
  "civil_day D = DateFromTime (D * msPerDay)"

definition iso_of_day :: "int \<Rightarrow> string" where
  "iso_of_day D = canonical_iso (civil_year D) (civil_month D) (civil_day D)"

section \<open>Properties of the calendar operations\<close>

lemma int_div_bounds:
  fixes a k :: int
  assumes "0 < k"
  shows "k * (a div k) \<le> a" and "a - (k - 1) \<le> k * (a div k)"
proof -
  have "k * (a div k) + a mod k = a" by simp
  moreover have "0 \<le> a mod k" "a mod k < k" using assms by simp_all
  ultimately show "k * (a div k) \<le> a" and "a - (k - 1) \<le> k * (a div k)"
    by linarith+
qed

lemma int_div_step:
  fixes a k :: int
  assumes "1 < k"
  shows "(a + 1) div k = a div k + (if (a + 1) mod k = 0 then 1 else 0)"
proof -
  have r: "0 \<le> a mod k" "a mod k < k" using assms by simp_all
  show ?thesis
  proof (cases "a mod k + 1 = k")
    case True
    have "a + 1 = k * (a div k) + k"
      using mult_div_mod_eq[of k a] True by linarith
    then have "a + 1 = k * (a div k + 1) + 0"
      by (simp add: algebra_simps)
    then have "(a + 1) div k = a div k + 1" "(a + 1) mod k = 0"
      using assms int_div_pos_eq[of "a + 1" k "a div k + 1" 0]
        int_mod_pos_eq[of "a + 1" k "a div k + 1" 0] by simp_all
    then show ?thesis by simp
  next
    case False
    have "a + 1 = k * (a div k) + (a mod k + 1)"
      using mult_div_mod_eq[of k a] by linarith
    moreover have "0 \<le> a mod k + 1" "a mod k + 1 < k" using r False by simp_all
    ultimately have "(a + 1) div k = a div k" "(a + 1) mod k = a mod k + 1"
      using int_div_pos_eq[of "a + 1" k "a div k" "a mod k + 1"]
        int_mod_pos_eq[of "a + 1" k "a div k" "a mod k + 1"] by simp_all
    then show ?thesis using r by simp
  qed
qed

lemma DayFromYear_bounds:
  "146097 * (y - 1970) - 506 \<le> 400 * DayFromYear y"
  "400 * DayFromYear y \<le> 146097 * (y - 1970) + 589"
proof -
  note a = int_div_bounds[of 4 "y - 1969"]
  note b = int_div_bounds[of 100 "y - 1901"]
  note c = int_div_bounds[of 400 "y - 1601"]
  show "146097 * (y - 1970) - 506 \<le> 400 * DayFromYear y"
    unfolding DayFromYear_def using a b c by simp
  show "400 * DayFromYear y \<le> 146097 * (y - 1970) + 589"
    unfolding DayFromYear_def using a b c by simp
qed

lemma mod_shift:
  fixes y :: int
  shows "(y - 1968) mod 4 = y mod 4"
    and "(y - 1900) mod 100 = y mod 100"
    and "(y - 1600) mod 400 = y mod 400"
proof -
  have "(y - 4 * 492) mod 4 = y mod 4" by (simp add: mod_diff_right_eq[symmetric])
  then show "(y - 1968) mod 4 = y mod 4" by simp
  have "(y - 100 * 19) mod 100 = y mod 100" by (simp add: mod_diff_right_eq[symmetric])
  then show "(y - 1900) mod 100 = y mod 100" by simp
  have "(y - 400 * 4) mod 400 = y mod 400" by (simp add: mod_diff_right_eq[symmetric])
  then show "(y - 1600) mod 400 = y mod 400" by simp
qed

lemma mod_400_100_4:
  fixes y :: int
  shows "y mod 400 = 0 \<Longrightarrow> y mod 100 = 0" and "y mod 100 = 0 \<Longrightarrow> y mod 4 = 0"
proof -
  show "y mod 400 = 0 \<Longrightarrow> y mod 100 = 0"
    using mod_mod_cancel[of 100 400 y] by simp
  show "y mod 100 = 0 \<Longrightarrow> y mod 4 = 0"
    using mod_mod_cancel[of 4 100 y] by simp
qed

lemma DayFromYear_Suc: "DayFromYear (y + 1) = DayFromYear y + DaysInYear y"
proof -
  have a: "(y + 1 - 1969) div 4 = (y - 1969) div 4 + (if y mod 4 = 0 then 1 else 0)"
    using int_div_step[of 4 "y - 1969"] mod_shift(1)[of y] by (simp add: algebra_simps)
  have b: "(y + 1 - 1901) div 100 = (y - 1901) div 100 + (if y mod 100 = 0 then 1 else 0)"
    using int_div_step[of 100 "y - 1901"] mod_shift(2)[of y] by (simp add: algebra_simps)
  have c: "(y + 1 - 1601) div 400 = (y - 1601) div 400 + (if y mod 400 = 0 then 1 else 0)"
    using int_div_step[of 400 "y - 1601"] mod_shift(3)[of y] by (simp add: algebra_simps)
  show ?thesis
    unfolding DayFromYear_def DaysInYear_def a b c using mod_400_100_4[of y] by auto
qed

lemma YearFromDay_lower: "DayFromYear (YearFromDay d) \<le> d"
proof -
  define y where "y = 1970 + (400 * d) div 146097"
  have e: "146097 * (y - 1970) \<le> 400 * d"
    unfolding y_def using int_div_bounds(1)[of 146097 "400 * d"] by simp
  have "400 * DayFromYear (y - 1) \<le> 400 * d"
    using DayFromYear_bounds(2)[of "y - 1"] e by (simp add: algebra_simps)
  then have "DayFromYear (y - 1) \<le> d" by simp
  then show ?thesis
    unfolding YearFromDay_def Let_def y_def[symmetric] by auto
qed

lemma YearFromDay_upper: "d < DayFromYear (YearFromDay d + 1)"
proof -
  define y where "y = 1970 + (400 * d) div 146097"
  have e: "400 * d < 146097 * (y - 1970) + 146097"
    unfolding y_def using int_div_bounds(2)[of 146097 "400 * d"] by simp
  have "400 * d < 400 * DayFromYear (y + 2)"
    using DayFromYear_bounds(1)[of "y + 2"] e by (simp add: algebra_simps)
  then have "d < DayFromYear (y + 2)" by simp
  then show ?thesis
    unfolding YearFromDay_def Let_def y_def[symmetric] by (auto simp: add.commute)
qed

lemma DaysInYear_cases: "DaysInYear y = 365 \<or> DaysInYear y = 366"
  by (simp add: DaysInYear_def)

lemma DayFromYear_strict_mono: "y < z \<Longrightarrow> DayFromYear y < DayFromYear z"
proof (induction z rule: int_gr_induct)
  case base
  then show ?case using DayFromYear_Suc[of y] DaysInYear_cases[of y] by linarith
next
  case (step i)
  then show ?case using DayFromYear_Suc[of i] DaysInYear_cases[of i] by linarith
qed

lemma DayFromYear_mono: "y \<le> z \<Longrightarrow> DayFromYear y \<le> DayFromYear z"
  using DayFromYear_strict_mono[of y z] by (cases "y = z") auto

lemma YearFromDay_unique:
  assumes "DayFromYear y \<le> d" "d < DayFromYear (y + 1)"
  shows "YearFromDay d = y"
proof (rule ccontr)
  assume ne: "YearFromDay d \<noteq> y"
  show False
  proof (cases "YearFromDay d < y")
    case True
    then have "DayFromYear (YearFromDay d + 1) \<le> DayFromYear y"
      by (intro DayFromYear_mono) simp
    then show False using YearFromDay_upper[of d] assms by linarith
  next
    case False
    then have "DayFromYear (y + 1) \<le> DayFromYear (YearFromDay d)"
      using ne by (intro DayFromYear_mono) simp
    then show False using YearFromDay_lower[of d] assms by linarith
  qed
qed

lemma YearFromDay_mono: "d \<le> e \<Longrightarrow> YearFromDay d \<le> YearFromDay e"
proof (rule ccontr)
  assume le: "d \<le> e" and "\<not> YearFromDay d \<le> YearFromDay e"
  then have "DayFromYear (YearFromDay e + 1) \<le> DayFromYear (YearFromDay d)"
    by (intro DayFromYear_mono) simp
  then show False
    using YearFromDay_upper[of e] YearFromDay_lower[of d] le by linarith
qed

text \<open>The executable year is the year of ECMA-262: the largest \<open>y\<close> with \<open>TimeFromYear y \<le> t\<close>.\<close>

lemma YearFromTime_largest:
  "msPerDay * DayFromYear (YearFromTime t) \<le> t
   \<and> (\<forall>y. msPerDay * DayFromYear y \<le> t \<longrightarrow> y \<le> YearFromTime t)"
proof -
  have iff: "msPerDay * DayFromYear y \<le> t \<longleftrightarrow> DayFromYear y \<le> Day t" for y
  proof -
    note b = int_div_bounds[of msPerDay t]
    have pos: "0 < msPerDay" by (simp add: msPerDay_def)
    show ?thesis
    proof
      assume "msPerDay * DayFromYear y \<le> t"
      then have "msPerDay * DayFromYear y < msPerDay * (Day t + 1)"
        using b(2)[OF pos] by (simp add: Day_def algebra_simps)
      then have "DayFromYear y < Day t + 1" using pos by simp
      then show "DayFromYear y \<le> Day t" by simp
    next
      assume "DayFromYear y \<le> Day t"
      then have "msPerDay * DayFromYear y \<le> msPerDay * Day t" using pos by simp
      then show "msPerDay * DayFromYear y \<le> t" using b(1)[OF pos] by (simp add: Day_def)
    qed
  qed
  have "y \<le> YearFromTime t" if "DayFromYear y \<le> Day t" for y
  proof (rule ccontr)
    assume "\<not> y \<le> YearFromTime t"
    then have "DayFromYear (YearFromDay (Day t) + 1) \<le> DayFromYear y"
      unfolding YearFromTime_def by (intro DayFromYear_mono) simp
    then show False using YearFromDay_upper[of "Day t"] that by linarith
  qed
  then show ?thesis
    using YearFromDay_lower[of "Day t"] by (simp add: iff YearFromTime_def)
qed

lemma DayWithinYear_range:
  "0 \<le> DayWithinYear t" "DayWithinYear t < DaysInYear (YearFromTime t)"
  using YearFromDay_lower[of "Day t"] YearFromDay_upper[of "Day t"]
    DayFromYear_Suc[of "YearFromDay (Day t)"]
  by (simp_all add: DayWithinYear_def YearFromTime_def)

lemma MonthFromTime_range: "0 \<le> MonthFromTime t" "MonthFromTime t \<le> 11"
  by (simp_all add: MonthFromTime_def Let_def)

lemma DateFromTime_range:
  "1 \<le> DateFromTime t" "DateFromTime t \<le> daysInMonthOf (YearFromTime t) (MonthFromTime t + 1)"
proof -
  define d where "d = DayWithinYear t"
  define l where "l = InLeapYear t"
  have d: "0 \<le> d" "d < 365 + l"
    using DayWithinYear_range[of t] DaysInYear_cases[of "YearFromTime t"]
    by (auto simp: d_def l_def InLeapYear_def)
  have l: "l = 0 \<or> l = 1" by (simp add: l_def InLeapYear_def)
  have leap: "DaysInYear (YearFromTime t) = 366 \<longleftrightarrow> l = 1"
    by (simp add: l_def InLeapYear_def)
  show "1 \<le> DateFromTime t"
    unfolding DateFromTime_def MonthFromTime_def Let_def d_def[symmetric] l_def[symmetric]
    using d l by (simp split: if_splits)
  show "DateFromTime t \<le> daysInMonthOf (YearFromTime t) (MonthFromTime t + 1)"
    unfolding DateFromTime_def MonthFromTime_def daysInMonthOf_def Let_def leap
      d_def[symmetric] l_def[symmetric]
    using d l by (auto split: if_splits)
qed

lemma month_cases:
  fixes mn :: int
  assumes "0 \<le> mn" "mn \<le> 11"
  shows "mn = 0 \<or> mn = 1 \<or> mn = 2 \<or> mn = 3 \<or> mn = 4 \<or> mn = 5 \<or> mn = 6 \<or> mn = 7
         \<or> mn = 8 \<or> mn = 9 \<or> mn = 10 \<or> mn = 11"
  using assms by presburger

lemma civil_MakeDay:
  assumes mn: "0 \<le> mn" "mn \<le> 11"
    and dt: "1 \<le> dt" "dt \<le> daysInMonthOf y (mn + 1)"
    and t: "Day t = MakeDay y mn dt"
  shows "YearFromTime t = y" and "MonthFromTime t = mn" and "DateFromTime t = dt"
proof -
  define l :: int where "l = (if DaysInYear y = 366 then 1 else 0)"
  define w where "w = DaysBeforeMonth mn l + dt - 1"
  have l01: "0 \<le> l" "l \<le> 1" by (simp_all add: l_def)
  have dm: "y + mn div 12 = y" "mn mod 12 = mn" using mn by simp_all
  have day: "Day t = DayFromYear y + w"
    unfolding t MakeDay_def Let_def dm w_def l_def by simp
  have diy: "DaysInYear y = 365 + l"
    using DaysInYear_cases[of y] by (auto simp: l_def)
  have dt': "dt \<le> (if mn = 1 then 28 + l else if mn = 3 \<or> mn = 5 \<or> mn = 8 \<or> mn = 10 then 30 else 31)"
    using dt(2) by (auto simp: daysInMonthOf_def l_def split: if_splits)
  have w: "0 \<le> w \<and> w < 365 + l"
    using month_cases[OF mn] dt(1) dt' l01
    by (elim disjE; simp add: w_def DaysBeforeMonth_def)
  have "DayFromYear y \<le> Day t" "Day t < DayFromYear (y + 1)"
    using w by (simp_all add: day DayFromYear_Suc diy)
  then show yr: "YearFromTime t = y"
    unfolding YearFromTime_def by (rule YearFromDay_unique)
  have dwy: "DayWithinYear t = w" by (simp add: DayWithinYear_def yr day)
  have ily: "InLeapYear t = l" by (simp add: InLeapYear_def yr l_def)
  show mo: "MonthFromTime t = mn"
    unfolding MonthFromTime_def Let_def dwy ily
    using month_cases[OF mn] dt(1) dt' l01
    by (elim disjE; simp add: w_def DaysBeforeMonth_def)
  show "DateFromTime t = dt"
    unfolding DateFromTime_def Let_def mo dwy ily
    using month_cases[OF mn]
    by (elim disjE; simp add: w_def DaysBeforeMonth_def)
qed

lemma MakeDay_of_civil:
  "MakeDay (YearFromTime t) (MonthFromTime t) (DateFromTime t) = Day t"
proof -
  define l where "l = InLeapYear t"
  define d where "d = DayWithinYear t"
  have dm: "YearFromTime t + MonthFromTime t div 12 = YearFromTime t"
    "MonthFromTime t mod 12 = MonthFromTime t"
    using MonthFromTime_range[of t] by simp_all
  have l: "(if DaysInYear (YearFromTime t) = 366 then 1 else 0) = l"
    by (simp add: l_def InLeapYear_def)
  have "DaysBeforeMonth (MonthFromTime t) l + DateFromTime t - 1 = d"
    unfolding DateFromTime_def MonthFromTime_def DaysBeforeMonth_def Let_def
      l_def[symmetric] d_def[symmetric]
    by simp
  then show ?thesis
    unfolding MakeDay_def Let_def dm l by (simp add: d_def DayWithinYear_def)
qed

lemma Day_offset:
  assumes "0 \<le> r" "r < msPerDay"
  shows "Day (k * msPerDay + r) = k" and "TimeWithinDay (k * msPerDay + r) = r"
proof -
  have "k * msPerDay + r = msPerDay * k + r" by simp
  then show "Day (k * msPerDay + r) = k" "TimeWithinDay (k * msPerDay + r) = r"
    unfolding Day_def TimeWithinDay_def
    using assms int_div_pos_eq[of "k * msPerDay + r" msPerDay k r]
      int_mod_pos_eq[of "k * msPerDay + r" msPerDay k r] by simp_all
qed

lemma Day_TimeWithinDay: "Day t * msPerDay + TimeWithinDay t = t"
  by (simp add: Day_def TimeWithinDay_def)

lemma civil_lex_mono:
  assumes lt: "Day s < Day t"
  shows "YearFromTime s < YearFromTime t
         \<or> (YearFromTime s = YearFromTime t
             \<and> (MonthFromTime s < MonthFromTime t
                 \<or> (MonthFromTime s = MonthFromTime t \<and> DateFromTime s < DateFromTime t)))"
proof (cases "YearFromTime s = YearFromTime t")
  case False
  then show ?thesis
    using YearFromDay_mono[of "Day s" "Day t"] lt by (simp add: YearFromTime_def)
next
  case True
  define y where "y = YearFromTime t"
  define l :: int where "l = (if DaysInYear y = 366 then 1 else 0)"
  have l01: "0 \<le> l" "l \<le> 1" by (simp_all add: l_def)
  have ys: "YearFromTime s = y" using True by (simp add: y_def)
  have ms: "0 \<le> MonthFromTime s" "MonthFromTime s \<le> 11"
    and mt: "0 \<le> MonthFromTime t" "MonthFromTime t \<le> 11"
    using MonthFromTime_range by simp_all
  have day: "Day u = DayFromYear y + DaysBeforeMonth (MonthFromTime u) l + DateFromTime u - 1"
    if "YearFromTime u = y" for u
  proof -
    have "YearFromTime u + MonthFromTime u div 12 = y" "MonthFromTime u mod 12 = MonthFromTime u"
      using MonthFromTime_range[of u] that by simp_all
    then show ?thesis
      using MakeDay_of_civil[of u] unfolding MakeDay_def Let_def l_def by simp
  qed
  have ds: "1 \<le> DateFromTime s" using DateFromTime_range(1) .
  have dt: "DateFromTime t \<le> daysInMonthOf y (MonthFromTime t + 1)"
    using DateFromTime_range(2)[of t] by (simp add: y_def)
  have dim: "daysInMonthOf y (m + 1) =
      (if m = 1 then 28 + l else if m = 3 \<or> m = 5 \<or> m = 8 \<or> m = 10 then 30 else 31)" for m
    using DaysInYear_cases[of y] by (auto simp: daysInMonthOf_def l_def)
  have step: "DaysBeforeMonth a l + daysInMonthOf y (a + 1) \<le> DaysBeforeMonth b l"
    if "0 \<le> a" "a < b" "b \<le> 11" for a b
  proof -
    have a: "a \<le> 11" using that by simp
    show ?thesis
      unfolding dim
      using month_cases[OF that(1) a] that(2,3) l01
      by (elim disjE; simp add: DaysBeforeMonth_def)
  qed
  have "\<not> MonthFromTime t < MonthFromTime s"
  proof
    assume "MonthFromTime t < MonthFromTime s"
    then have "DaysBeforeMonth (MonthFromTime t) l + daysInMonthOf y (MonthFromTime t + 1)
               \<le> DaysBeforeMonth (MonthFromTime s) l"
      using mt(1) ms(2) by (intro step) simp_all
    then show False
      using day[OF ys] day[of t] lt ds dt by (simp add: y_def)
  qed
  moreover have "DateFromTime s < DateFromTime t" if "MonthFromTime s = MonthFromTime t"
    using day[OF ys] day[of t] lt that by (simp add: y_def)
  ultimately show ?thesis using True by force
qed

lemma civil_eq_iff:
  "Day s = Day t \<longleftrightarrow>
     YearFromTime s = YearFromTime t \<and> MonthFromTime s = MonthFromTime t
     \<and> DateFromTime s = DateFromTime t"
proof
  assume "Day s = Day t"
  then show "YearFromTime s = YearFromTime t \<and> MonthFromTime s = MonthFromTime t
     \<and> DateFromTime s = DateFromTime t"
    by (simp add: YearFromTime_def MonthFromTime_def DateFromTime_def DayWithinYear_def
        InLeapYear_def)
next
  assume "YearFromTime s = YearFromTime t \<and> MonthFromTime s = MonthFromTime t
     \<and> DateFromTime s = DateFromTime t"
  then show "Day s = Day t"
    using MakeDay_of_civil[of s] MakeDay_of_civil[of t] by simp
qed

section \<open>Properties of the getters and the comparisons\<close>

lemmas rx_defs = rx_class_def rx_seq_def rx_alt_def rx_opt_def rx_test_def rx_digit_def
  rx_month_def rx_day_def iso_regex_def

lemma year_Some [simp]:
  "year env (this\<lparr>generatedDate := Some t\<rparr>) = Some (YearFromTime (LocalTime env t))"
  "generatedDate this = Some t \<Longrightarrow> year env this = Some (YearFromTime (LocalTime env t))"
  by (simp_all add: year_def Date_getFullYear_def)

lemma month_Some [simp]:
  "generatedDate this = Some t \<Longrightarrow> month env this = Some (MonthFromTime (LocalTime env t) + 1)"
  by (simp_all add: month_def Date_getMonth_def js_add_def)

lemma day_Some [simp]:
  "generatedDate this = Some t \<Longrightarrow> day env this = Some (DateFromTime (LocalTime env t))"
  by (simp_all add: day_def Date_getDate_def)

lemma getters_None [simp]:
  "generatedDate this = None \<Longrightarrow> year env this = None"
  "generatedDate this = None \<Longrightarrow> month env this = None"
  "generatedDate this = None \<Longrightarrow> day env this = None"
  by (simp_all add: year_def month_def day_def Date_getFullYear_def Date_getMonth_def
      Date_getDate_def js_add_def)

lemma js_cmp_Some [simp]:
  "js_gt (Some x) (Some y) = (x > y)"
  "js_lt (Some x) (Some y) = (x < y)"
  "js_ge (Some x) (Some y) = (x \<ge> y)"
  "js_le (Some x) (Some y) = (x \<le> y)"
  "js_seq (Some x) (Some y) = (x = y)"
  by (simp_all add: js_gt_def js_lt_def js_ge_def js_le_def js_seq_def)

lemma js_cmp_None [simp]:
  "js_gt None b = False" "js_gt a None = False"
  "js_lt None b = False" "js_lt a None = False"
  "js_ge None b = False" "js_ge a None = False"
  "js_le None b = False" "js_le a None = False"
  "js_seq None b = False" "js_seq a None = False"
  by (simp_all add: js_gt_def js_lt_def js_ge_def js_le_def js_seq_def split: option.splits)

lemma isBefore_iff_later_day:
  assumes "generatedDate this = Some s" "generatedDate secondDate = Some t"
  shows "isBefore env this secondDate \<longleftrightarrow> Day (LocalTime env t) < Day (LocalTime env s)"
proof -
  define a where "a = LocalTime env s"
  define b where "b = LocalTime env t"
  have eq: "isBefore env this secondDate \<longleftrightarrow>
      (YearFromTime b < YearFromTime a
       \<or> (YearFromTime b = YearFromTime a
           \<and> (MonthFromTime b < MonthFromTime a
               \<or> (MonthFromTime b = MonthFromTime a \<and> DateFromTime b < DateFromTime a))))"
    using assms by (auto simp: isBefore_def a_def b_def)
  show ?thesis
  proof (cases "Day b < Day a")
    case True
    then show ?thesis using civil_lex_mono[of b a] eq by (simp add: a_def b_def)
  next
    case False
    show ?thesis
    proof (cases "Day a = Day b")
      case True
      then show ?thesis using civil_eq_iff[of a b] eq False by (simp add: a_def b_def)
    next
      case ne: False
      then have "Day a < Day b" using False by simp
      then show ?thesis using civil_lex_mono[of a b] eq False by (auto simp: a_def b_def)
    qed
  qed
qed

lemma isAfter_iff_earlier_day:
  assumes "generatedDate this = Some s" "generatedDate secondDate = Some t"
  shows "isAfter env this secondDate \<longleftrightarrow> Day (LocalTime env s) < Day (LocalTime env t)"
proof -
  have "isAfter env this secondDate = isBefore env secondDate this"
    using assms by (auto simp: isAfter_def isBefore_def)
  then show ?thesis using isBefore_iff_later_day[OF assms(2) assms(1)] by simp
qed

lemma isEqual_iff_same_day:
  assumes "generatedDate this = Some s" "generatedDate secondDate = Some t"
  shows "isEqual env this secondDate \<longleftrightarrow> Day (LocalTime env s) = Day (LocalTime env t)"
  using assms civil_eq_iff[of "LocalTime env s" "LocalTime env t"] by (simp add: isEqual_def)

lemma Day_add_days: "Day (t + k * msPerDay) = Day t + k"
  by (simp add: Day_def msPerDay_def)

lemma isIso_2024_01_01: "isIso (JString ''2024-01-01'')"
  by (simp add: isIso_def rx_defs)

lemma parse_2024_01_01: "Date_parse env ''2024-01-01'' = Some 1704067200000"
  by (simp add: Date_parse_def parse_iso_date_def is_digit_def digits_val_def digit_val_def
      daysInMonthOf_def DaysInYear_def MakeDay_def DayFromYear_def DaysBeforeMonth_def
      MakeDate_def msPerDay_def TimeClip_def)

lemma construct_2024_01_01:
  "nativeDateHelper env (JString ''2024-01-01'') =
     Inr (\<lparr>generatedDate = Some 1704067200000, dateString = ''2024-01-01'', isHealed = False\<rparr>, [])"
  by (simp add: nativeDateHelper_def NativeDate_constructor_def isDate_def typeof_def
      isIso_2024_01_01 addLeadingZeros_def parse_2024_01_01 warn_if_invalid_def
      Date_toString_is_Invalid_Date_def)

section \<open>Evaluation on concrete inputs\<close>

lemmas civil_defs = YearFromTime_def YearFromDay_def Day_def msPerDay_def DayFromYear_def
  DaysInYear_def InLeapYear_def DayWithinYear_def MonthFromTime_def DateFromTime_def

lemmas parse_defs = Date_parse_def parse_iso_date_def is_digit_def digits_val_def digit_val_def
  daysInMonthOf_def DaysInYear_def MakeDay_def DayFromYear_def DaysBeforeMonth_def
  MakeDate_def msPerDay_def TimeClip_def

lemmas construct_defs = nativeDateHelper_def NativeDate_constructor_def isDate_def typeof_def
  addLeadingZeros_def warn_if_invalid_def Date_toString_is_Invalid_Date_def

lemmas makeday_defs = MakeDay_def MakeDate_def TimeClip_def DaysBeforeMonth_def DayFromYear_def
  DaysInYear_def TimeWithinDay_def msPerDay_def

lemmas text_defs = toIso_def Number_toString_def digit_char_def addLeadingZeros_def

lemma construct_2023_01_01:
  "nativeDateHelper env (JString ''2023-01-01'') =
     Inr (\<lparr>generatedDate = Some 1672531200000, dateString = ''2023-01-01'', isHealed = False\<rparr>, [])"
proof -
  have "isIso (JString ''2023-01-01'')" by (simp add: isIso_def rx_defs)
  moreover have "Date_parse env ''2023-01-01'' = Some 1672531200000" by (simp add: parse_defs)
  ultimately show ?thesis by (simp add: construct_defs)
qed

lemma construct_2024_01_31:
  "nativeDateHelper env (JString ''2024-01-31'') =
     Inr (\<lparr>generatedDate = Some 1706659200000, dateString = ''2024-01-31'', isHealed = False\<rparr>, [])"
proof -
  have "isIso (JString ''2024-01-31'')" by (simp add: isIso_def rx_defs)
  moreover have "Date_parse env ''2024-01-31'' = Some 1706659200000" by (simp add: parse_defs)
  ultimately show ?thesis by (simp add: construct_defs)
qed

lemma construct_2024_03_01:
  "nativeDateHelper env (JString ''2024-03-01'') =
     Inr (\<lparr>generatedDate = Some 1709251200000, dateString = ''2024-03-01'', isHealed = False\<rparr>, [])"
proof -
  have "isIso (JString ''2024-03-01'')" by (simp add: isIso_def rx_defs)
  moreover have "Date_parse env ''2024-03-01'' = Some 1709251200000" by (simp add: parse_defs)
  ultimately show ?thesis by (simp add: construct_defs)
qed

lemma construct_2024_02_29:
  "nativeDateHelper env (JString ''2024-02-29'') =
     Inr (\<lparr>generatedDate = Some 1709164800000, dateString = ''2024-02-29'', isHealed = False\<rparr>, [])"
proof -
  have "isIso (JString ''2024-02-29'')" by (simp add: isIso_def rx_defs)
  moreover have "Date_parse env ''2024-02-29'' = Some 1709164800000" by (simp add: parse_defs)
  ultimately show ?thesis by (simp add: construct_defs)
qed

lemma js_arith_Some [simp]:
  "js_add (Some x) (Some y) = Some (x + y)"
  "js_sub (Some x) (Some y) = Some (x - y)"
  by (simp_all add: js_add_def js_sub_def)

lemma updateGeneratedDate_toIso:
  "updateGeneratedDate env this =
     this\<lparr>dateString := toIso (year env this) (month env this) (day env this),
          generatedDate := Date_parse env (toIso (year env this) (month env this) (day env this))\<rparr>"
  by (simp add: updateGeneratedDate_def toIso_def Let_def)

section \<open>Arithmetic\<close>

text \<open>
  Claim C1: \<^verbatim>\<open>addMonth(n)\<close> advances the date by exactly \<open>n\<close> calendar months, and
  \<^verbatim>\<open>addMonth(1)\<close> on 2024-01-31 yields the date the month setter assigns when February is
  shorter than 31 days. The source calls \<^verbatim>\<open>setMonth(this.month + number)\<close>, where
  \<^verbatim>\<open>this.month\<close> is \<^verbatim>\<open>getMonth() + 1\<close> and \<^verbatim>\<open>setMonth\<close> counts months from 0: the date
  moves by \<open>n + 1\<close> months. With local time UTC, \<^verbatim>\<open>addMonth(1)\<close> on 2024-01-31 gives
  2024-03-31, two months later; February and its carry are never reached.
\<close>

theorem addMonth_skips_a_month:
  "nativeDateHelper runtime_utc (JString ''2024-01-31'') =
     Inr (\<lparr>generatedDate = Some 1706659200000, dateString = ''2024-01-31'', isHealed = False\<rparr>, [])
   \<and> addMonth runtime_utc 1
        \<lparr>generatedDate = Some 1706659200000, dateString = ''2024-01-31'', isHealed = False\<rparr>
       = \<lparr>generatedDate = Some 1711843200000, dateString = ''2024-03-31'', isHealed = False\<rparr>
   \<and> isoString runtime_utc
        \<lparr>generatedDate = Some 1711843200000, dateString = ''2024-03-31'', isHealed = False\<rparr>
       = ''2024-03-31''"
proof -
  have y: "YearFromTime 1706659200000 = 2024" "MonthFromTime 1706659200000 = 0"
    "DateFromTime 1706659200000 = 31"
    by (simp_all add: civil_defs)
  have s: "Date_setMonth runtime_utc (Some 2) (Some 1706659200000) = Some 1711843200000"
    by (simp add: Date_setMonth_def runtime_utc_def LocalTime_def UTC_def y makeday_defs)
  have z: "YearFromTime 1711843200000 = 2024" "MonthFromTime 1711843200000 = 2"
    "DateFromTime 1711843200000 = 31"
    by (simp_all add: civil_defs)
  have p: "Date_parse runtime_utc ''2024-03-31'' = Some 1711843200000"
    by (simp add: parse_defs)
  have tz: "LocalTime runtime_utc t = t" for t
    by (simp add: LocalTime_def runtime_utc_def)
  have i: "toIso (Some 2024) (Some 3) (Some 31) = ''2024-03-31''"
    by (simp add: text_defs)
  show ?thesis
    by (simp add: construct_2024_01_31 addMonth_def updateGeneratedDate_toIso isoString_def
        tz y z s p i)
qed

section \<open>Construction\<close>

text \<open>
  Claim C2: constructing an instance never throws, whatever the input; unrecognised input
  is healed. \<^verbatim>\<open>isDate\<close> calls \<^verbatim>\<open>getFullYear()\<close> on every value whose \<^verbatim>\<open>typeof\<close> is
  \<^verbatim>\<open>object\<close>, and \<^verbatim>\<open>typeof null\<close> is \<^verbatim>\<open>object\<close>: on \<^verbatim>\<open>null\<close> the constructor leaves with
  a \<^verbatim>\<open>TypeError\<close> before the healing branch is reached, in every runtime.
\<close>

theorem constructor_throws_on_null:
  "nativeDateHelper env JNull = Inl TypeError"
  by (simp add: nativeDateHelper_def NativeDate_constructor_def isDate_def typeof_def)

text \<open>
  Claim C6: every input that is neither date-like nor a matching ISO string is healed:
  empty \<open>dateString\<close>, \<open>isHealed\<close> set, the current instant as the date. An object without
  a \<^verbatim>\<open>getFullYear\<close> method, such as \<^verbatim>\<open>{}\<close>, is such an input, and the constructor throws
  on it for the reason it throws on \<^verbatim>\<open>null\<close>.
\<close>

theorem constructor_throws_on_plain_object:
  "nativeDateHelper env JObject = Inl TypeError"
  by (simp add: nativeDateHelper_def NativeDate_constructor_def isDate_def typeof_def)

text \<open>
  Every input that is not an object and not a matching ISO string is healed as the
  specification says, and the text of a healed instance is the local calendar date of the
  current instant.
\<close>

lemma healed_construction:
  assumes "typeof v \<noteq> ''object''" "\<not> isIso v"
  shows "nativeDateHelper env v =
           Inr (\<lparr>generatedDate = Some (currentTime env), dateString = [], isHealed = True\<rparr>, [])"
    and "isoString env \<lparr>generatedDate = Some (currentTime env), dateString = [], isHealed = True\<rparr>
           = toIso (Some (YearFromTime (LocalTime env (currentTime env))))
                   (Some (MonthFromTime (LocalTime env (currentTime env)) + 1))
                   (Some (DateFromTime (LocalTime env (currentTime env))))"
  using assms
  by (simp_all add: nativeDateHelper_def NativeDate_constructor_def isDate_def
      warn_if_invalid_def Date_toString_is_Invalid_Date_def isoString_def)

section \<open>Dates parsed in UTC and read in local time\<close>

text \<open>
  Claim C8: \<^verbatim>\<open>nativeDateHelper("2024-03-01").subtractDay(1).isoString\<close> is \<^verbatim>\<open>2024-02-29\<close>.
  \<^verbatim>\<open>new Date("2024-03-01")\<close> is midnight UTC, while \<^verbatim>\<open>getFullYear\<close>, \<^verbatim>\<open>getMonth\<close>,
  \<^verbatim>\<open>getDate\<close> and \<^verbatim>\<open>setDate\<close> work in local time. Five hours west of UTC the local date
  of the new instance is already 2024-02-29, \<^verbatim>\<open>setDate(28)\<close> gives 2024-02-28, and the
  rebuilding through \<^verbatim>\<open>new Date("2024-02-28")\<close> loses one more day: the text is
  \<^verbatim>\<open>2024-02-27\<close>.
\<close>

theorem subtractDay_west_of_utc:
  "nativeDateHelper runtime_utc_minus_5 (JString ''2024-03-01'') =
     Inr (\<lparr>generatedDate = Some 1709251200000, dateString = ''2024-03-01'', isHealed = False\<rparr>, [])
   \<and> subtractDay runtime_utc_minus_5 1
        \<lparr>generatedDate = Some 1709251200000, dateString = ''2024-03-01'', isHealed = False\<rparr>
       = \<lparr>generatedDate = Some 1709078400000, dateString = ''2024-02-28'', isHealed = False\<rparr>
   \<and> isoString runtime_utc_minus_5
        \<lparr>generatedDate = Some 1709078400000, dateString = ''2024-02-28'', isHealed = False\<rparr>
       = ''2024-02-27''"
proof -
  have tz: "LocalTime runtime_utc_minus_5 t = t - 18000000" for t
    by (simp add: LocalTime_def runtime_utc_minus_5_def)
  have y: "YearFromTime 1709233200000 = 2024" "MonthFromTime 1709233200000 = 1"
    "DateFromTime 1709233200000 = 29"
    by (simp_all add: civil_defs)
  have utc: "UTC runtime_utc_minus_5 t = t + 18000000" for t
    by (simp add: UTC_def runtime_utc_minus_5_def)
  have s: "Date_setDate runtime_utc_minus_5 (Some 28) (Some 1709251200000) = Some 1709164800000"
    by (simp add: Date_setDate_def tz utc y makeday_defs)
  have z: "YearFromTime 1709146800000 = 2024" "MonthFromTime 1709146800000 = 1"
    "DateFromTime 1709146800000 = 28"
    by (simp_all add: civil_defs)
  have p: "Date_parse runtime_utc_minus_5 ''2024-02-28'' = Some 1709078400000"
    by (simp add: parse_defs)
  have u: "YearFromTime 1709060400000 = 2024" "MonthFromTime 1709060400000 = 1"
    "DateFromTime 1709060400000 = 27"
    by (simp_all add: civil_defs)
  have i: "toIso (Some 2024) (Some 2) (Some 28) = ''2024-02-28''"
    "toIso (Some 2024) (Some 2) (Some 27) = ''2024-02-27''"
    by (simp_all add: text_defs)
  show ?thesis
    by (simp add: construct_2024_03_01 subtractDay_def updateGeneratedDate_toIso isoString_def
        tz y z u s p i)
qed

text \<open>
  Claim C7: for a date \<open>d\<close> built from a matching ISO string,
  \<^verbatim>\<open>nativeDateHelper(d.isoString).isEqual(d)\<close> is true. For the same reason as in C8, west
  of UTC the text of an instance is the day before the day it was built from, and an
  instance built from that text is one more day back: the two are not equal.
\<close>

theorem roundtrip_west_of_utc:
  "nativeDateHelper runtime_utc_minus_5 (JString ''2024-03-01'') =
     Inr (\<lparr>generatedDate = Some 1709251200000, dateString = ''2024-03-01'', isHealed = False\<rparr>, [])
   \<and> isoString runtime_utc_minus_5
        \<lparr>generatedDate = Some 1709251200000, dateString = ''2024-03-01'', isHealed = False\<rparr>
       = ''2024-02-29''
   \<and> nativeDateHelper runtime_utc_minus_5 (JString ''2024-02-29'') =
     Inr (\<lparr>generatedDate = Some 1709164800000, dateString = ''2024-02-29'', isHealed = False\<rparr>, [])
   \<and> isEqual runtime_utc_minus_5
        \<lparr>generatedDate = Some 1709164800000, dateString = ''2024-02-29'', isHealed = False\<rparr>
        \<lparr>generatedDate = Some 1709251200000, dateString = ''2024-03-01'', isHealed = False\<rparr>
       = False"
proof -
  have tz: "LocalTime runtime_utc_minus_5 t = t - 18000000" for t
    by (simp add: LocalTime_def runtime_utc_minus_5_def)
  have y: "YearFromTime 1709233200000 = 2024" "MonthFromTime 1709233200000 = 1"
    "DateFromTime 1709233200000 = 29"
    by (simp_all add: civil_defs)
  have z: "YearFromTime 1709146800000 = 2024" "MonthFromTime 1709146800000 = 1"
    "DateFromTime 1709146800000 = 28"
    by (simp_all add: civil_defs)
  have i: "toIso (Some 2024) (Some 2) (Some 29) = ''2024-02-29''"
    by (simp add: text_defs)
  show ?thesis
    by (simp add: construct_2024_03_01 construct_2024_02_29 isoString_def isEqual_def tz y z i)
qed

section \<open>Comparison\<close>

text \<open>
  Claim C3: \<^verbatim>\<open>isBefore(other)\<close> is true exactly when \<^verbatim>\<open>this.year > other.year\<close>, or the
  years are equal and \<^verbatim>\<open>this.month > other.month\<close>, or years and months are equal and
  \<^verbatim>\<open>this.day > other.day\<close>; \<^verbatim>\<open>isAfter(other)\<close> is the mirror image with \<^verbatim>\<open><\<close>; and
  \<^verbatim>\<open>nativeDateHelper("2024-01-01").isBefore(nativeDateHelper("2023-01-01"))\<close> is true. The
  comparisons are those of JavaScript (false on \<^verbatim>\<open>NaN\<close>); the instance holds in every
  runtime, whatever its time zone.
\<close>

theorem isBefore_isAfter_cascade:
  "(isBefore env this secondDate \<longleftrightarrow>
      js_gt (year env this) (year env secondDate)
      \<or> (js_seq (year env this) (year env secondDate)
          \<and> js_gt (month env this) (month env secondDate))
      \<or> (js_seq (year env this) (year env secondDate)
          \<and> js_seq (month env this) (month env secondDate)
          \<and> js_gt (day env this) (day env secondDate)))
   \<and> (isAfter env this secondDate \<longleftrightarrow>
      js_lt (year env this) (year env secondDate)
      \<or> (js_seq (year env this) (year env secondDate)
          \<and> js_lt (month env this) (month env secondDate))
      \<or> (js_seq (year env this) (year env secondDate)
          \<and> js_seq (month env this) (month env secondDate)
          \<and> js_lt (day env this) (day env secondDate)))
   \<and> (\<exists>a b wa wb.
          nativeDateHelper env (JString ''2024-01-01'') = Inr (a, wa)
          \<and> nativeDateHelper env (JString ''2023-01-01'') = Inr (b, wb)
          \<and> isBefore env a b)"
proof -
  define a where
    "a = \<lparr>generatedDate = Some 1704067200000, dateString = ''2024-01-01'', isHealed = False\<rparr>"
  define b where
    "b = \<lparr>generatedDate = Some 1672531200000, dateString = ''2023-01-01'', isHealed = False\<rparr>"
  have "LocalTime env 1704067200000 = LocalTime env 1672531200000 + 365 * msPerDay"
    by (simp add: LocalTime_def msPerDay_def)
  then have "Day (LocalTime env 1672531200000) < Day (LocalTime env 1704067200000)"
    by (simp add: Day_add_days)
  then have "isBefore env a b"
    using isBefore_iff_later_day[of a 1704067200000 b 1672531200000 env]
    by (simp add: a_def b_def)
  then have "\<exists>a b wa wb.
          nativeDateHelper env (JString ''2024-01-01'') = Inr (a, wa)
          \<and> nativeDateHelper env (JString ''2023-01-01'') = Inr (b, wb)
          \<and> isBefore env a b"
    using construct_2024_01_01[of env] construct_2023_01_01[of env]
    unfolding a_def b_def by blast
  then show ?thesis
    by (auto simp: isBefore_def isAfter_def)
qed

text \<open>
  Claim C10: for two instances whose dates are valid, exactly one of \<^verbatim>\<open>isEqual\<close>,
  \<^verbatim>\<open>isBefore\<close> and \<^verbatim>\<open>isAfter\<close> is true; in particular the last two are never both true,
  and both are false exactly when \<^verbatim>\<open>isEqual\<close> is true.
\<close>

theorem comparison_trichotomy:
  assumes "generatedDate this = Some s" and "generatedDate secondDate = Some t"
  shows "(isEqual env this secondDate \<and> \<not> isBefore env this secondDate
            \<and> \<not> isAfter env this secondDate)
         \<or> (isBefore env this secondDate \<and> \<not> isEqual env this secondDate
            \<and> \<not> isAfter env this secondDate)
         \<or> (isAfter env this secondDate \<and> \<not> isEqual env this secondDate
            \<and> \<not> isBefore env this secondDate)"
  using assms by (auto simp: isEqual_def isBefore_def isAfter_def)

theorem comparison_trichotomy_witness:
  "generatedDate \<lparr>generatedDate = Some 1704067200000, dateString = ''2024-01-01'', isHealed = False\<rparr>
     = Some 1704067200000
   \<and> generatedDate \<lparr>generatedDate = Some 1672531200000, dateString = ''2023-01-01'', isHealed = False\<rparr>
     = Some 1672531200000
   \<and> isBefore runtime_utc
        \<lparr>generatedDate = Some 1704067200000, dateString = ''2024-01-01'', isHealed = False\<rparr>
        \<lparr>generatedDate = Some 1672531200000, dateString = ''2023-01-01'', isHealed = False\<rparr>
   \<and> \<not> isEqual runtime_utc
        \<lparr>generatedDate = Some 1704067200000, dateString = ''2024-01-01'', isHealed = False\<rparr>
        \<lparr>generatedDate = Some 1672531200000, dateString = ''2023-01-01'', isHealed = False\<rparr>
   \<and> \<not> isAfter runtime_utc
        \<lparr>generatedDate = Some 1704067200000, dateString = ''2024-01-01'', isHealed = False\<rparr>
        \<lparr>generatedDate = Some 1672531200000, dateString = ''2023-01-01'', isHealed = False\<rparr>"
proof -
  define a where
    "a = \<lparr>generatedDate = Some 1704067200000, dateString = ''2024-01-01'', isHealed = False\<rparr>"
  define b where
    "b = \<lparr>generatedDate = Some 1672531200000, dateString = ''2023-01-01'', isHealed = False\<rparr>"
  have g: "generatedDate a = Some 1704067200000" "generatedDate b = Some 1672531200000"
    by (simp_all add: a_def b_def)
  have "Day (LocalTime runtime_utc 1672531200000) < Day (LocalTime runtime_utc 1704067200000)"
    by (simp add: LocalTime_def runtime_utc_def Day_def msPerDay_def)
  then have "isBefore runtime_utc a b"
    using isBefore_iff_later_day[OF g, of runtime_utc] by simp
  then show ?thesis
    using comparison_trichotomy[OF g, of runtime_utc] g unfolding a_def b_def by blast
qed

section \<open>Validation\<close>

lemma js_rem_zero_iff:
  assumes "0 < n"
  shows "js_seq (js_rem (Some x) n) (Some 0) \<longleftrightarrow> n dvd x"
proof -
  have "sgn x * (\<bar>x\<bar> mod n) = 0 \<longleftrightarrow> \<bar>x\<bar> mod n = 0"
    by (cases "x = 0") (auto simp: sgn_if)
  also have "\<dots> \<longleftrightarrow> n dvd x"
    by (simp add: mod_eq_0_iff_dvd)
  finally show ?thesis by (simp add: js_rem_def)
qed

lemma isLeapYear_spec: "isLeapYear (Some y) = spec_isLeapYear y"
  by (simp add: isLeapYear_def spec_isLeapYear_def js_rem_zero_iff)

lemma daysInMonth_spec: "daysInMonth (Some m) (Some y) = Some (spec_daysInMonth m y)"
  by (simp add: daysInMonth_def spec_daysInMonth_def isLeapYear_spec)

lemma isValidDate_None: "generatedDate this = None \<Longrightarrow> \<not> isValidDate env this"
  by (simp add: isValidDate_def typeof_def)

lemma isValidDate_Some:
  assumes "generatedDate this = Some t"
  shows "isValidDate env this \<longleftrightarrow>
     1 \<le> MonthFromTime (LocalTime env t) + 1 \<and> MonthFromTime (LocalTime env t) + 1 \<le> 12
     \<and> 1 \<le> DateFromTime (LocalTime env t)
     \<and> DateFromTime (LocalTime env t)
         \<le> spec_daysInMonth (MonthFromTime (LocalTime env t) + 1) (YearFromTime (LocalTime env t))"
  using assms by (auto simp: isValidDate_def typeof_def Let_def daysInMonth_spec)

text \<open>
  Claim C9: \<^verbatim>\<open>isValidDate()\<close> is false when the date is the Invalid Date, and otherwise it
  is true exactly when \<open>1 \<le> month \<le> 12\<close> and \<open>1 \<le> day \<le> daysInMonth(month, year)\<close>, with
  the days of a month as the specification gives them. The helpers of the class compute
  that calendar: \<^verbatim>\<open>isLeapYear\<close> is the Gregorian rule and \<^verbatim>\<open>daysInMonth\<close> the table.
  (An instance always holds a \<^verbatim>\<open>Date\<close>, so the case of a missing date does not arise;
  the Invalid Date is rejected by the comparisons with \<^verbatim>\<open>NaN\<close>, not by the guard.)
\<close>

theorem isValidDate_spec:
  "(generatedDate this = None \<longrightarrow> \<not> isValidDate env this)
   \<and> (isValidDate env this \<longleftrightarrow>
        (\<exists>y m d. year env this = Some y \<and> month env this = Some m \<and> day env this = Some d
                 \<and> 1 \<le> m \<and> m \<le> 12 \<and> 1 \<le> d \<and> d \<le> spec_daysInMonth m y))
   \<and> isLeapYear (Some yr) = spec_isLeapYear yr
   \<and> daysInMonth (Some mo) (Some yr) = Some (spec_daysInMonth mo yr)"
proof (cases "generatedDate this")
  case None
  then show ?thesis
    by (simp add: isValidDate_None isLeapYear_spec daysInMonth_spec)
next
  case (Some t)
  then show ?thesis
    by (simp add: isValidDate_Some isLeapYear_spec daysInMonth_spec)
qed

theorem isValidDate_spec_witness:
  "generatedDate \<lparr>generatedDate = None, dateString = ''NaN-NaN-NaN'', isHealed = False\<rparr> = None
   \<and> \<not> isValidDate runtime_utc
          \<lparr>generatedDate = None, dateString = ''NaN-NaN-NaN'', isHealed = False\<rparr>
   \<and> isValidDate runtime_utc
        \<lparr>generatedDate = Some 1709164800000, dateString = ''2024-02-29'', isHealed = False\<rparr>
   \<and> isLeapYear (Some 2024) \<and> \<not> isLeapYear (Some 1900)
   \<and> daysInMonth (Some 2) (Some 2024) = Some 29"
proof -
  define a where
    "a = \<lparr>generatedDate = None, dateString = ''NaN-NaN-NaN'', isHealed = False\<rparr>"
  define b where
    "b = \<lparr>generatedDate = Some 1709164800000, dateString = ''2024-02-29'', isHealed = False\<rparr>"
  have tz: "LocalTime runtime_utc t = t" for t
    by (simp add: LocalTime_def runtime_utc_def)
  have c: "YearFromTime 1709164800000 = 2024" "MonthFromTime 1709164800000 = 1"
    "DateFromTime 1709164800000 = 29"
    by (simp_all add: civil_defs)
  have l: "spec_isLeapYear 2024" "\<not> spec_isLeapYear 1900"
    by (simp_all add: spec_isLeapYear_def)
  have d: "spec_daysInMonth 2 2024 = 29"
    by (simp add: spec_daysInMonth_def l)
  have g: "generatedDate b = Some 1709164800000" "generatedDate a = None"
    by (simp_all add: a_def b_def)
  have 1: "\<not> isValidDate runtime_utc a"
    using isValidDate_spec[of a runtime_utc 2024 2] g by simp
  have 2: "isValidDate runtime_utc b"
    using isValidDate_spec[of b runtime_utc 2024 2] g by (simp add: tz c d)
  have 3: "isLeapYear (Some 2024)" "daysInMonth (Some 2) (Some 2024) = Some 29"
    using isValidDate_spec[of a runtime_utc 2024 2] l d by simp_all
  have 4: "\<not> isLeapYear (Some 1900)"
    using isValidDate_spec[of a runtime_utc 1900 2] l by simp
  show ?thesis
    using 1 2 3 4 g unfolding a_def b_def by simp
qed

section \<open>Properties of the text operations\<close>

declare string_of_nat.simps [simp del]

lemma digit_cases:
  fixes k :: nat
  assumes "k < 10"
  shows "k = 0 \<or> k = 1 \<or> k = 2 \<or> k = 3 \<or> k = 4 \<or> k = 5 \<or> k = 6 \<or> k = 7 \<or> k = 8 \<or> k = 9"
  using assms by presburger

lemma digit_char_props:
  assumes "k < 10"
  shows "is_digit (digit_char k)" and "digit_char k \<noteq> CHR ''-''"
    and "digit_val (digit_char k) = int k"
proof -
  show "is_digit (digit_char k)"
    using digit_cases[OF assms] by (elim disjE; simp add: digit_char_def is_digit_def)
  show "digit_char k \<noteq> CHR ''-''"
    using digit_cases[OF assms] by (elim disjE; simp add: digit_char_def)
  show "digit_val (digit_char k) = int k"
    using digit_cases[OF assms] by (elim disjE; simp add: digit_char_def digit_val_def)
qed

lemma string_of_nat_small: "n < 10 \<Longrightarrow> string_of_nat n = [digit_char n]"
  by (subst string_of_nat.simps) simp

lemma string_of_nat_step:
  "10 \<le> n \<Longrightarrow> string_of_nat n = string_of_nat (n div 10) @ [digit_char (n mod 10)]"
  by (subst string_of_nat.simps) simp

lemma string_of_nat_digits: "list_all is_digit (string_of_nat n)"
proof (induction n rule: string_of_nat.induct)
  case (1 n)
  show ?case
  proof (cases "n < 10")
    case True
    then show ?thesis by (simp add: string_of_nat_small digit_char_props)
  next
    case False
    then show ?thesis using 1 by (simp add: string_of_nat_step digit_char_props)
  qed
qed

lemma digits_val_snoc: "digits_val (cs @ [c]) = 10 * digits_val cs + digit_val c"
  by (simp add: digits_val_def)

lemma digits_val_string_of_nat: "digits_val (string_of_nat n) = int n"
proof (induction n rule: string_of_nat.induct)
  case (1 n)
  show ?case
  proof (cases "n < 10")
    case True
    then show ?thesis by (simp add: string_of_nat_small digits_val_def digit_char_props)
  next
    case False
    then have "digits_val (string_of_nat n) = 10 * int (n div 10) + int (n mod 10)"
      using 1 by (simp add: string_of_nat_step digits_val_snoc digit_char_props)
    also have "\<dots> = int n" by (simp add: zdiv_int zmod_int)
    finally show ?thesis .
  qed
qed

lemma string_of_nat_length:
  "n < 10 \<Longrightarrow> length (string_of_nat n) = 1"
  "10 \<le> n \<Longrightarrow> n < 100 \<Longrightarrow> length (string_of_nat n) = 2"
  "100 \<le> n \<Longrightarrow> n < 1000 \<Longrightarrow> length (string_of_nat n) = 3"
  "1000 \<le> n \<Longrightarrow> n < 10000 \<Longrightarrow> length (string_of_nat n) = 4"
proof -
  show 1: "length (string_of_nat n) = 1" if "n < 10" for n
    using that by (simp add: string_of_nat_small)
  show 2: "length (string_of_nat n) = 2" if "10 \<le> n" "n < 100" for n
    using that 1[of "n div 10"] by (simp add: string_of_nat_step)
  show 3: "length (string_of_nat n) = 3" if "100 \<le> n" "n < 1000" for n
    using that 2[of "n div 10"] by (simp add: string_of_nat_step)
  show "length (string_of_nat n) = 4" if "1000 \<le> n" "n < 10000" for n
    using that 3[of "n div 10"] by (simp add: string_of_nat_step)
qed

lemma no_dash_in_digits: "list_all is_digit cs \<Longrightarrow> CHR ''-'' \<notin> set cs"
proof
  assume "list_all is_digit cs" and "CHR ''-'' \<in> set cs"
  then have "is_digit CHR ''-''" by (simp add: list_all_iff)
  then show False by (simp add: is_digit_def)
qed

lemma split_on_none: "c \<notin> set w \<Longrightarrow> split_on c w = [w]"
proof (induction w)
  case Nil
  show ?case by simp
next
  case (Cons a w)
  then have "a \<noteq> c" "split_on c w = [w]" by auto
  then show ?case by simp
qed

lemma split_on_append: "c \<notin> set w \<Longrightarrow> split_on c (w @ c # r) = w # split_on c r"
proof (induction w)
  case Nil
  show ?case by simp
next
  case (Cons a w)
  then have "a \<noteq> c" "split_on c (w @ c # r) = w # split_on c r" by auto
  then show ?case by simp
qed

lemma split_on_nonempty: "split_on c s \<noteq> []"
  by (induction s) (auto split: list.splits)

lemma split_on_contains: "c \<in> set s \<Longrightarrow> \<exists>a b r. split_on c s = a # b # r"
proof (induction s)
  case Nil
  then show ?case by simp
next
  case (Cons x s)
  show ?case
  proof (cases "x = c")
    case True
    then show ?thesis using split_on_nonempty[of c s] by (cases "split_on c s") auto
  next
    case False
    then have "c \<in> set s" using Cons.prems by simp
    then obtain a b r where "split_on c s = a # b # r" using Cons.IH by blast
    then show ?thesis using False by simp
  qed
qed

lemma join_with_two_nonempty: "sep \<noteq> [] \<Longrightarrow> join_with sep (a # b # r) \<noteq> []"
  by simp

lemma addLeadingZeros_fields:
  assumes "CHR ''-'' \<notin> set ys" "CHR ''-'' \<notin> set ms" "CHR ''-'' \<notin> set ds"
    and "length ys = 4"
    and "length ms = 1 \<or> length ms = 2" and "length ds = 1 \<or> length ds = 2"
  shows "addLeadingZeros (ys @ ''-'' @ ms @ ''-'' @ ds) = ys @ ''-'' @ pad2 ms @ ''-'' @ pad2 ds"
proof (cases "length ms = 2 \<and> length ds = 2")
  case True
  then show ?thesis using assms(4) by (simp add: addLeadingZeros_def pad2_def)
next
  case False
  then have "length (ys @ ''-'' @ ms @ ''-'' @ ds) \<noteq> 10"
    using assms(4,5,6) by auto
  moreover have "split_on CHR ''-'' (ys @ ''-'' @ ms @ ''-'' @ ds) = [ys, ms, ds]"
    using assms(1,2,3) by (simp add: split_on_append split_on_none)
  ultimately show ?thesis
    using assms(4) by (simp add: addLeadingZeros_def pad2_def)
qed

lemma addLeadingZeros_nonempty:
  assumes "CHR ''-'' \<in> set s"
  shows "addLeadingZeros s \<noteq> []"
proof (cases "length s = 10")
  case True
  then show ?thesis by (auto simp: addLeadingZeros_def)
next
  case False
  obtain a b r where "split_on CHR ''-'' s = a # b # r"
    using split_on_contains[OF assms] by blast
  then show ?thesis
    using False by (simp add: addLeadingZeros_def)
qed

lemma toIso_nonempty: "toIso y m d \<noteq> []"
  unfolding toIso_def by (rule addLeadingZeros_nonempty) simp

lemma Number_toString_nonneg: "0 \<le> i \<Longrightarrow> Number_toString (Some i) = string_of_nat (nat i)"
  by (simp add: Number_toString_def)

lemma pad2_string_of_nat:
  assumes "n < 100"
  shows "length (pad2 (string_of_nat n)) = 2"
    and "list_all is_digit (pad2 (string_of_nat n))"
    and "digits_val (pad2 (string_of_nat n)) = int n"
proof -
  have z: "digits_val (CHR ''0'' # w) = digits_val w" for w
    by (simp add: digits_val_def digit_val_def)
  have d: "is_digit CHR ''0''" by (simp add: is_digit_def)
  show "length (pad2 (string_of_nat n)) = 2"
    using assms string_of_nat_length(1,2)[of n] by (cases "n < 10") (simp_all add: pad2_def)
  show "list_all is_digit (pad2 (string_of_nat n))"
    using string_of_nat_digits[of n] d by (simp add: pad2_def)
  show "digits_val (pad2 (string_of_nat n)) = int n"
    using digits_val_string_of_nat[of n] by (simp add: pad2_def z)
qed

lemma daysInMonthOf_le_31: "daysInMonthOf y m \<le> 31"
  by (simp add: daysInMonthOf_def)

lemma isoString_fields:
  assumes g: "generatedDate this = Some t"
    and y: "1000 \<le> YearFromTime (LocalTime env t)" "YearFromTime (LocalTime env t) \<le> 9999"
  shows "isoString env this =
           string_of_nat (nat (YearFromTime (LocalTime env t))) @ ''-''
           @ pad2 (string_of_nat (nat (MonthFromTime (LocalTime env t) + 1))) @ ''-''
           @ pad2 (string_of_nat (nat (DateFromTime (LocalTime env t))))"
proof -
  define u where "u = LocalTime env t"
  define ys where "ys = string_of_nat (nat (YearFromTime u))"
  define ms where "ms = string_of_nat (nat (MonthFromTime u + 1))"
  define ds where "ds = string_of_nat (nat (DateFromTime u))"
  have m: "0 \<le> MonthFromTime u" "MonthFromTime u \<le> 11"
    using MonthFromTime_range by simp_all
  have d: "1 \<le> DateFromTime u" "DateFromTime u \<le> 31"
    using DateFromTime_range[of u] daysInMonthOf_le_31[of "YearFromTime u" "MonthFromTime u + 1"]
    by simp_all
  have ly: "length ys = 4"
    unfolding ys_def using y by (intro string_of_nat_length(4)) (simp_all add: u_def)
  have lm: "length ms = 1 \<or> length ms = 2"
    unfolding ms_def using m string_of_nat_length(1,2)[of "nat (MonthFromTime u + 1)"]
    by (cases "nat (MonthFromTime u + 1) < 10") simp_all
  have ld: "length ds = 1 \<or> length ds = 2"
    unfolding ds_def using d string_of_nat_length(1,2)[of "nat (DateFromTime u)"]
    by (cases "nat (DateFromTime u) < 10") simp_all
  have nd: "CHR ''-'' \<notin> set ys" "CHR ''-'' \<notin> set ms" "CHR ''-'' \<notin> set ds"
    unfolding ys_def ms_def ds_def by (simp_all add: no_dash_in_digits string_of_nat_digits)
  have "isoString env this = addLeadingZeros (ys @ ''-'' @ ms @ ''-'' @ ds)"
    using g y m d
    by (simp add: isoString_def toIso_def Number_toString_nonneg ys_def ms_def ds_def u_def)
  then show ?thesis
    using addLeadingZeros_fields[OF nd ly lm ld]
    by (simp add: ys_def ms_def ds_def u_def)
qed

section \<open>The text of an instance\<close>

text \<open>
  Claim C5, as amended: for every instance with a valid date whose local year has four
  digits (1000 to 9999), \<open>isoString\<close> is four digits, a dash, two digits, a dash and two
  digits, and the three groups are the year, the month and the day of the instance.
\<close>

theorem isoString_zero_padded:
  assumes "year env this = Some y" and "1000 \<le> y" and "y \<le> 9999"
  shows "\<exists>ys ms ds.
           isoString env this = ys @ ''-'' @ ms @ ''-'' @ ds
           \<and> length ys = 4 \<and> length ms = 2 \<and> length ds = 2
           \<and> list_all is_digit ys \<and> list_all is_digit ms \<and> list_all is_digit ds
           \<and> Some (digits_val ys) = year env this
           \<and> Some (digits_val ms) = month env this
           \<and> Some (digits_val ds) = day env this"
proof -
  obtain t where g: "generatedDate this = Some t"
    using assms(1) by (cases "generatedDate this") (simp_all add: year_def Date_getFullYear_def)
  define u where "u = LocalTime env t"
  have yu: "YearFromTime u = y" using assms(1) g by (simp add: u_def)
  have m: "0 \<le> MonthFromTime u" "MonthFromTime u \<le> 11"
    using MonthFromTime_range by simp_all
  have d: "1 \<le> DateFromTime u" "DateFromTime u \<le> 31"
    using DateFromTime_range[of u] daysInMonthOf_le_31[of "YearFromTime u" "MonthFromTime u + 1"]
    by simp_all
  define ys where "ys = string_of_nat (nat y)"
  define ms where "ms = pad2 (string_of_nat (nat (MonthFromTime u + 1)))"
  define ds where "ds = pad2 (string_of_nat (nat (DateFromTime u)))"
  have "isoString env this = ys @ ''-'' @ ms @ ''-'' @ ds"
    using isoString_fields[OF g] assms(2,3) yu by (simp add: u_def ys_def ms_def ds_def)
  moreover have "length ys = 4"
    unfolding ys_def using assms(2,3) by (intro string_of_nat_length(4)) simp_all
  moreover have "length ms = 2" "list_all is_digit ms" "digits_val ms = MonthFromTime u + 1"
    unfolding ms_def using m pad2_string_of_nat[of "nat (MonthFromTime u + 1)"] by simp_all
  moreover have "length ds = 2" "list_all is_digit ds" "digits_val ds = DateFromTime u"
    unfolding ds_def using d pad2_string_of_nat[of "nat (DateFromTime u)"] by simp_all
  moreover have "list_all is_digit ys" "digits_val ys = y"
    unfolding ys_def using assms(2) by (simp_all add: string_of_nat_digits digits_val_string_of_nat)
  ultimately show ?thesis
    using g yu by (intro exI[of _ ys] exI[of _ ms] exI[of _ ds]) (simp add: u_def)
qed

theorem isoString_zero_padded_witness:
  "year runtime_utc
     \<lparr>generatedDate = Some 1709251200000, dateString = ''2024-03-01'', isHealed = False\<rparr>
     = Some 2024
   \<and> (1000::int) \<le> 2024 \<and> (2024::int) \<le> 9999
   \<and> (\<exists>ys ms ds.
         isoString runtime_utc
           \<lparr>generatedDate = Some 1709251200000, dateString = ''2024-03-01'', isHealed = False\<rparr>
           = ys @ ''-'' @ ms @ ''-'' @ ds
         \<and> length ys = 4 \<and> length ms = 2 \<and> length ds = 2
         \<and> list_all is_digit ys \<and> list_all is_digit ms \<and> list_all is_digit ds
         \<and> digits_val ys = 2024)"
proof -
  define a where
    "a = \<lparr>generatedDate = Some 1709251200000, dateString = ''2024-03-01'', isHealed = False\<rparr>"
  have y: "year runtime_utc a = Some 2024"
    by (simp add: a_def LocalTime_def runtime_utc_def civil_defs)
  obtain ys ms ds where "isoString runtime_utc a = ys @ ''-'' @ ms @ ''-'' @ ds"
    "length ys = 4" "length ms = 2" "length ds = 2"
    "list_all is_digit ys" "list_all is_digit ms" "list_all is_digit ds"
    "Some (digits_val ys) = year runtime_utc a"
    using isoString_zero_padded[OF y] by auto
  then show ?thesis
    using y unfolding a_def by auto
qed

text \<open>
  The claim as stated fails for a year of fewer than four digits: an instance built from
  the \<^verbatim>\<open>Date\<close> of 1 January 999 (UTC) has the nine-character text \<^verbatim>\<open>999-01-01\<close>.
\<close>

theorem isoString_three_digit_year:
  "nativeDateHelper runtime_utc (JDate (Some (- 30641760000000))) =
     Inr (\<lparr>generatedDate = Some (- 30641760000000), dateString = ''999-01-01'',
           isHealed = False\<rparr>, [])
   \<and> isoString runtime_utc
        \<lparr>generatedDate = Some (- 30641760000000), dateString = ''999-01-01'', isHealed = False\<rparr>
       = ''999-01-01''"
proof -
  have tz: "LocalTime runtime_utc t = t" for t
    by (simp add: LocalTime_def runtime_utc_def)
  have c: "YearFromTime (- 30641760000000) = 999" "MonthFromTime (- 30641760000000) = 0"
    "DateFromTime (- 30641760000000) = 1"
    by (simp_all add: civil_defs)
  have i: "toIso (Some 999) (Some 1) (Some 1) = ''999-01-01''"
    by (simp add: text_defs string_of_nat.simps)
  show ?thesis
    by (simp add: construct_defs isoString_def tz c i)
qed

subsection \<open>The stored source text\<close>

text \<open>
  Claim C4, as amended: \<^verbatim>\<open>isValidDateString()\<close> is the comparison of the ISO text
  recomputed from the current year, month and day with the stored \<open>dateString\<close>; it is
  false for an instance that was healed at construction, whose \<open>dateString\<close> is empty; and
  it is true for an instance constructed from a \<^verbatim>\<open>Date\<close> object, because the constructor
  stores that instance's own \<open>isoString\<close> as its \<open>dateString\<close>.
\<close>

theorem isValidDateString_provenance:
  "(isValidDateString env this \<longleftrightarrow>
      toIso (year env this) (month env this) (day env this) = dateString this)
   \<and> (typeof v \<noteq> ''object'' \<and> \<not> isIso v \<longrightarrow>
        (\<exists>d w. nativeDateHelper env v = Inr (d, w) \<and> isHealed d \<and> dateString d = []
               \<and> \<not> isValidDateString env d))
   \<and> (\<exists>d w. nativeDateHelper env (JDate tv) = Inr (d, w) \<and> \<not> isHealed d
             \<and> dateString d = isoString env d \<and> isValidDateString env d)"
proof -
  have 1: "isValidDateString env this \<longleftrightarrow>
      toIso (year env this) (month env this) (day env this) = dateString this"
    by (simp add: isValidDateString_def)
  have 2: "\<exists>d w. nativeDateHelper env v = Inr (d, w) \<and> isHealed d \<and> dateString d = []
               \<and> \<not> isValidDateString env d"
    if "typeof v \<noteq> ''object''" "\<not> isIso v"
    using healed_construction(1)[OF that, of env] toIso_nonempty
    by (simp add: isValidDateString_def)
  have 3: "\<exists>d w. nativeDateHelper env (JDate tv) = Inr (d, w) \<and> \<not> isHealed d
             \<and> dateString d = isoString env d \<and> isValidDateString env d"
    by (simp add: nativeDateHelper_def NativeDate_constructor_def isDate_def typeof_def
        isValidDateString_def isoString_def year_def month_def day_def Let_def)
  show ?thesis using 1 2 3 by blast
qed

theorem isValidDateString_provenance_witness:
  "typeof JUndefined \<noteq> ''object'' \<and> \<not> isIso JUndefined
   \<and> (\<exists>d w. nativeDateHelper runtime_utc JUndefined = Inr (d, w) \<and> isHealed d
             \<and> dateString d = [] \<and> \<not> isValidDateString runtime_utc d)"
proof -
  have h: "typeof JUndefined \<noteq> ''object'' \<and> \<not> isIso JUndefined"
    by (simp add: typeof_def isIso_def)
  then show ?thesis
    using isValidDateString_provenance[of runtime_utc
        "\<lparr>generatedDate = Some 0, dateString = [], isHealed = True\<rparr>" JUndefined "Some 0"]
    by blast
qed

text \<open>
  The claim as stated fails for a date-like source: the instance built from the \<^verbatim>\<open>Date\<close>
  of 1 March 2024 (UTC) answers true.
\<close>

theorem isValidDateString_true_for_date_object:
  "nativeDateHelper runtime_utc (JDate (Some 1709251200000)) =
     Inr (\<lparr>generatedDate = Some 1709251200000, dateString = ''2024-03-01'',
           isHealed = False\<rparr>, [])
   \<and> isValidDateString runtime_utc
        \<lparr>generatedDate = Some 1709251200000, dateString = ''2024-03-01'', isHealed = False\<rparr>"
proof -
  have tz: "LocalTime runtime_utc t = t" for t
    by (simp add: LocalTime_def runtime_utc_def)
  have c: "YearFromTime 1709251200000 = 2024" "MonthFromTime 1709251200000 = 2"
    "DateFromTime 1709251200000 = 1"
    by (simp_all add: civil_defs)
  have i: "toIso (Some 2024) (Some 3) (Some 1) = ''2024-03-01''"
    by (simp add: text_defs string_of_nat.simps)
  show ?thesis
    by (simp add: construct_defs isoString_def isValidDateString_def tz c i)
qed

lemma year_text:
  assumes "1000 \<le> n" "n \<le> 2999"
  shows "\<exists>c1 c2 c3 c4. string_of_nat n = [c1, c2, c3, c4] \<and> c1 \<in> set ''12''
           \<and> is_digit c2 \<and> is_digit c3 \<and> is_digit c4"
proof -
  define a where "a = n div 10"
  define b where "b = a div 10"
  define c where "c = b div 10"
  have a: "100 \<le> a" "a \<le> 299" using assms by (simp_all add: a_def)
  have b: "10 \<le> b" "b \<le> 29" using a by (simp_all add: b_def)
  have c: "c = 1 \<or> c = 2" using b unfolding c_def by presburger
  have "string_of_nat n = string_of_nat a @ [digit_char (n mod 10)]"
    using assms by (simp add: string_of_nat_step a_def)
  also have "string_of_nat a = string_of_nat b @ [digit_char (a mod 10)]"
    using a by (simp add: string_of_nat_step b_def)
  also have "string_of_nat b = string_of_nat c @ [digit_char (b mod 10)]"
    using b by (simp add: string_of_nat_step c_def)
  also have "string_of_nat c = [digit_char c]"
    using c by (auto simp: string_of_nat_small)
  finally have "string_of_nat n =
      [digit_char c, digit_char (b mod 10), digit_char (a mod 10), digit_char (n mod 10)]"
    by simp
  moreover have "digit_char c \<in> set ''12''"
    using c by (auto simp: digit_char_def)
  ultimately show ?thesis
    by (simp add: digit_char_props)
qed

lemma month_texts:
  assumes "1 \<le> m" "m \<le> 12"
  shows "r \<in> set (rx_month (pad2 (string_of_nat (nat m)) @ r))"
    and "r \<in> set (rx_month (string_of_nat (nat m) @ r))"
proof -
  have m: "m = 1 \<or> m = 2 \<or> m = 3 \<or> m = 4 \<or> m = 5 \<or> m = 6 \<or> m = 7 \<or> m = 8 \<or> m = 9
           \<or> m = 10 \<or> m = 11 \<or> m = 12"
    using assms by presburger
  show "r \<in> set (rx_month (pad2 (string_of_nat (nat m)) @ r))"
    using m
    by (elim disjE; simp add: string_of_nat.simps digit_char_def pad2_def rx_month_def
        rx_alt_def rx_seq_def rx_opt_def rx_class_def)
  show "r \<in> set (rx_month (string_of_nat (nat m) @ r))"
    using m
    by (elim disjE; simp add: string_of_nat.simps digit_char_def rx_month_def
        rx_alt_def rx_seq_def rx_opt_def rx_class_def)
qed

lemma day_cases:
  fixes d :: int
  assumes "1 \<le> d" "d \<le> 31"
  shows "d = 1 \<or> d = 2 \<or> d = 3 \<or> d = 4 \<or> d = 5 \<or> d = 6 \<or> d = 7 \<or> d = 8 \<or> d = 9
         \<or> d = 10 \<or> d = 11 \<or> d = 12 \<or> d = 13 \<or> d = 14 \<or> d = 15 \<or> d = 16 \<or> d = 17
         \<or> d = 18 \<or> d = 19 \<or> d = 20 \<or> d = 21 \<or> d = 22 \<or> d = 23 \<or> d = 24 \<or> d = 25
         \<or> d = 26 \<or> d = 27 \<or> d = 28 \<or> d = 29 \<or> d = 30 \<or> d = 31"
  using assms by presburger

lemma day_texts:
  assumes "1 \<le> d" "d \<le> 31"
  shows "[] \<in> set (rx_day (pad2 (string_of_nat (nat d))))"
    and "[] \<in> set (rx_day (string_of_nat (nat d)))"
proof -
  show "[] \<in> set (rx_day (pad2 (string_of_nat (nat d))))"
    using day_cases[OF assms]
    by (elim disjE; simp add: string_of_nat.simps digit_char_def pad2_def rx_day_def
        rx_digit_def rx_alt_def rx_seq_def rx_opt_def rx_class_def)
  show "[] \<in> set (rx_day (string_of_nat (nat d)))"
    using day_cases[OF assms]
    by (elim disjE; simp add: string_of_nat.simps digit_char_def rx_day_def
        rx_digit_def rx_alt_def rx_seq_def rx_opt_def rx_class_def)
qed

lemma rx_seq_mem: "x \<in> set (rx_seq p q s) \<longleftrightarrow> (\<exists>r \<in> set (p s). x \<in> set (q r))"
  by (auto simp: rx_seq_def)

lemma rx_class_Cons: "rx_class cs (c # r) = (if c \<in> set cs then [r] else [])"
  by (simp add: rx_class_def)

lemma isIso_fields:
  assumes y: "1000 \<le> y" "y \<le> 2999"
    and ms: "\<And>r. r \<in> set (rx_month (ms @ r))"
    and ds: "[] \<in> set (rx_day ds)"
  shows "isIso (JString (string_of_nat (nat y) @ ''-'' @ ms @ ''-'' @ ds))"
proof -
  have n: "1000 \<le> nat y" "nat y \<le> 2999" using y by linarith+
  obtain c1 c2 c3 c4 where ys: "string_of_nat (nat y) = [c1, c2, c3, c4]"
    and c: "c1 \<in> set ''12''" "is_digit c2" "is_digit c3" "is_digit c4"
    using year_text[OF n] by blast
  have dg: "c2 \<in> set ''0123456789''" "c3 \<in> set ''0123456789''" "c4 \<in> set ''0123456789''"
    using c by (simp_all add: is_digit_def)
  have "[] \<in> set (rx_seq (rx_class ''-'') rx_day (''-'' @ ds))"
    using ds by (simp add: rx_seq_def rx_class_Cons)
  then have "[] \<in> set (rx_seq rx_month (rx_seq (rx_class ''-'') rx_day) (ms @ ''-'' @ ds))"
    using ms[of "''-'' @ ds"] rx_seq_mem[of "[]" rx_month] by blast
  then have "rx_test iso_regex ([c1, c2, c3, c4] @ ''-'' @ ms @ ''-'' @ ds)"
    using c(1) dg
    by (simp add: rx_test_def iso_regex_def rx_digit_def rx_seq_def[of "rx_class cs" for cs]
        rx_class_Cons)
  then show ?thesis
    by (simp add: isIso_def ys)
qed

lemma parse_iso_date_fields:
  assumes "length ys = 4" "length ms = 2" "length ds = 2"
    and "list_all is_digit ys" "list_all is_digit ms" "list_all is_digit ds"
  shows "parse_iso_date (ys @ ''-'' @ ms @ ''-'' @ ds)
           = Some (digits_val ys, digits_val ms, digits_val ds)"
  using assms by (simp add: parse_iso_date_def nth_append)

lemma canonical_iso_parts:
  assumes "1000 \<le> y" "y \<le> 9999" "0 \<le> m" "m \<le> 99" "0 \<le> d" "d \<le> 99"
  shows "parse_iso_date (canonical_iso y m d) = Some (y, m, d)"
    and "length (canonical_iso y m d) = 10"
proof -
  have ly: "length (string_of_nat (nat y)) = 4"
    using assms(1,2) by (intro string_of_nat_length(4)) simp_all
  note pm = pad2_string_of_nat[of "nat m"]
  note pd = pad2_string_of_nat[of "nat d"]
  show "parse_iso_date (canonical_iso y m d) = Some (y, m, d)"
    unfolding canonical_iso_def
    using assms ly pm pd
    by (subst parse_iso_date_fields)
      (simp_all add: string_of_nat_digits digits_val_string_of_nat)
  show "length (canonical_iso y m d) = 10"
    unfolding canonical_iso_def using assms ly pm(1) pd(1) by simp
qed

lemma DaysInYear_spec: "DaysInYear y = 366 \<longleftrightarrow> spec_isLeapYear y"
proof -
  have "400 dvd y \<Longrightarrow> 100 dvd y" "100 dvd y \<Longrightarrow> 4 dvd y"
    using mod_400_100_4[of y] by (simp_all add: mod_eq_0_iff_dvd)
  then show ?thesis
    by (auto simp: DaysInYear_def spec_isLeapYear_def mod_eq_0_iff_dvd)
qed

lemma daysInMonthOf_spec: "daysInMonthOf y m = spec_daysInMonth m y"
  by (simp add: daysInMonthOf_def spec_daysInMonth_def DaysInYear_spec)

lemma Day_of_days: "Day (D * msPerDay) = D"
  using Day_offset(1)[of 0 D] by (simp add: msPerDay_def)

lemma MakeDay_bounds:
  assumes "0 \<le> mn" "mn \<le> 11" "1 \<le> dt" "dt \<le> daysInMonthOf y (mn + 1)"
  shows "DayFromYear y \<le> MakeDay y mn dt" and "MakeDay y mn dt < DayFromYear (y + 1)"
proof -
  have "YearFromTime (MakeDay y mn dt * msPerDay) = y"
    using assms by (intro civil_MakeDay(1)[of mn dt y]) (simp_all add: Day_of_days)
  then have yr: "YearFromDay (MakeDay y mn dt) = y"
    by (simp add: YearFromTime_def Day_of_days)
  show "DayFromYear y \<le> MakeDay y mn dt"
    using YearFromDay_lower[of "MakeDay y mn dt"] yr by simp
  show "MakeDay y mn dt < DayFromYear (y + 1)"
    using YearFromDay_upper[of "MakeDay y mn dt"] yr by simp
qed

lemma DayFromYear_1000: "DayFromYear 1000 = - 354285"
  by (simp add: DayFromYear_def)

lemma DayFromYear_10000: "DayFromYear 10000 = 2932897"
  by (simp add: DayFromYear_def)

lemma TimeClip_days:
  assumes "- 100000000 \<le> D" "D \<le> 100000000"
  shows "TimeClip (D * msPerDay) = Some (D * msPerDay)"
  using assms by (simp add: TimeClip_def msPerDay_def abs_le_iff[symmetric] not_less abs_if)

lemma Date_parse_canonical:
  assumes y: "1000 \<le> y" "y \<le> 9999"
    and m: "1 \<le> m" "m \<le> 12"
    and d: "1 \<le> d" "d \<le> daysInMonthOf y m"
  shows "Date_parse env (canonical_iso y m d) = Some (MakeDay y (m - 1) d * msPerDay)"
proof -
  have d31: "d \<le> 31" using d(2) daysInMonthOf_le_31[of y m] by simp
  have p: "parse_iso_date (canonical_iso y m d) = Some (y, m, d)"
    using y m d(1) d31 by (intro canonical_iso_parts(1)) simp_all
  have b: "DayFromYear y \<le> MakeDay y (m - 1) d" "MakeDay y (m - 1) d < DayFromYear (y + 1)"
    using m d by (simp_all add: MakeDay_bounds)
  have "DayFromYear 1000 \<le> DayFromYear y" "DayFromYear (y + 1) \<le> DayFromYear 10000"
    using y by (simp_all add: DayFromYear_mono)
  then have "- 100000000 \<le> MakeDay y (m - 1) d" "MakeDay y (m - 1) d \<le> 100000000"
    using b by (simp_all add: DayFromYear_1000 DayFromYear_10000)
  then show ?thesis
    using m d by (simp add: Date_parse_def p MakeDate_def TimeClip_days)
qed

lemma local_day_east:
  assumes "0 \<le> LocalTZA env" "LocalTZA env < msPerDay"
  shows "Day (LocalTime env (D * msPerDay)) = D"
  using Day_offset(1)[OF assms, of D] by (simp add: LocalTime_def)

lemma fields_of_day:
  assumes g: "generatedDate this = Some t"
    and day: "Day (LocalTime env t) = MakeDay y (m - 1) d"
    and m: "1 \<le> m" "m \<le> 12" and d: "1 \<le> d" "d \<le> daysInMonthOf y m"
  shows "year env this = Some y" and "month env this = Some m" and "day env this = Some d"
proof -
  have c: "YearFromTime (LocalTime env t) = y" "MonthFromTime (LocalTime env t) = m - 1"
    "DateFromTime (LocalTime env t) = d"
    using m d day by (simp_all add: civil_MakeDay[of "m - 1" d y "LocalTime env t"])
  show "year env this = Some y" "month env this = Some m" "day env this = Some d"
    using g c by simp_all
qed

lemma toIso_canonical:
  assumes "1000 \<le> y" "y \<le> 9999" "0 \<le> m" "m \<le> 99" "0 \<le> d" "d \<le> 99"
  shows "toIso (Some y) (Some m) (Some d) = canonical_iso y m d"
proof -
  define ys where "ys = string_of_nat (nat y)"
  define ms where "ms = string_of_nat (nat m)"
  define ds where "ds = string_of_nat (nat d)"
  have ly: "length ys = 4"
    unfolding ys_def using assms(1,2) by (intro string_of_nat_length(4)) simp_all
  have lm: "length ms = 1 \<or> length ms = 2"
    unfolding ms_def using assms(3,4) string_of_nat_length(1,2)[of "nat m"]
    by (cases "nat m < 10") simp_all
  have ld: "length ds = 1 \<or> length ds = 2"
    unfolding ds_def using assms(5,6) string_of_nat_length(1,2)[of "nat d"]
    by (cases "nat d < 10") simp_all
  have nd: "CHR ''-'' \<notin> set ys" "CHR ''-'' \<notin> set ms" "CHR ''-'' \<notin> set ds"
    unfolding ys_def ms_def ds_def by (simp_all add: no_dash_in_digits string_of_nat_digits)
  have "toIso (Some y) (Some m) (Some d) = addLeadingZeros (ys @ ''-'' @ ms @ ''-'' @ ds)"
    using assms by (simp add: toIso_def Number_toString_nonneg ys_def ms_def ds_def)
  then show ?thesis
    using addLeadingZeros_fields[OF nd ly lm ld]
    by (simp add: canonical_iso_def ys_def ms_def ds_def)
qed

lemma isValidDate_iff_valid_instant:
  "isValidDate env this \<longleftrightarrow> generatedDate this \<noteq> None"
proof (cases "generatedDate this")
  case None
  then show ?thesis by (simp add: isValidDate_None)
next
  case (Some t)
  then show ?thesis
    using MonthFromTime_range[of "LocalTime env t"] DateFromTime_range[of "LocalTime env t"]
    by (simp add: isValidDate_Some daysInMonthOf_spec)
qed

lemma pad2_idem:
  assumes "w = string_of_nat n \<or> w = pad2 (string_of_nat n)" "n < 100"
  shows "pad2 w = pad2 (string_of_nat n)"
  using assms pad2_string_of_nat(1)[of n] by (auto simp: pad2_def)

lemma field_text:
  assumes "w = string_of_nat n \<or> w = pad2 (string_of_nat n)" "n < 100"
  shows "length w = 1 \<or> length w = 2" and "list_all is_digit w"
proof -
  have "length (string_of_nat n) = 1 \<or> length (string_of_nat n) = 2"
    using assms(2) string_of_nat_length(1,2)[of n] by (cases "n < 10") simp_all
  then show "length w = 1 \<or> length w = 2"
    using assms pad2_string_of_nat(1)[of n] by auto
  show "list_all is_digit w"
    using assms string_of_nat_digits[of n] pad2_string_of_nat(2)[of n] by auto
qed

lemma construct_iso_text:
  assumes y: "1000 \<le> y" "y \<le> 2999"
    and m: "1 \<le> m" "m \<le> 12"
    and d: "1 \<le> d" "d \<le> daysInMonthOf y m"
    and ms: "ms = string_of_nat (nat m) \<or> ms = pad2 (string_of_nat (nat m))"
    and ds: "ds = string_of_nat (nat d) \<or> ds = pad2 (string_of_nat (nat d))"
  shows "nativeDateHelper env (JString (string_of_nat (nat y) @ ''-'' @ ms @ ''-'' @ ds)) =
           Inr (\<lparr>generatedDate = Some (MakeDay y (m - 1) d * msPerDay),
                 dateString = canonical_iso y m d, isHealed = False\<rparr>, [])"
proof -
  define ys where "ys = string_of_nat (nat y)"
  have d31: "d \<le> 31" using d(2) daysInMonthOf_le_31[of y m] by simp
  have iso: "isIso (JString (ys @ ''-'' @ ms @ ''-'' @ ds))"
    unfolding ys_def
    using y ms ds month_texts[OF m] day_texts[OF d(1) d31]
    by (intro isIso_fields) auto
  have ly: "length ys = 4"
    unfolding ys_def using y by (intro string_of_nat_length(4)) simp_all
  have nm: "nat m < 100" "nat d < 100" using m d31 by linarith+
  note fm = field_text[OF ms nm(1)]
  note fd = field_text[OF ds nm(2)]
  have lm: "length ms = 1 \<or> length ms = 2" and ld: "length ds = 1 \<or> length ds = 2"
    using fm(1) fd(1) by simp_all
  have dg: "list_all is_digit ms" "list_all is_digit ds"
    using fm(2) fd(2) by simp_all
  have nd: "CHR ''-'' \<notin> set ys" "CHR ''-'' \<notin> set ms" "CHR ''-'' \<notin> set ds"
    using dg by (simp_all add: ys_def no_dash_in_digits string_of_nat_digits)
  have pm: "pad2 ms = pad2 (string_of_nat (nat m))"
    using pad2_idem[OF ms nm(1)] .
  have pd: "pad2 ds = pad2 (string_of_nat (nat d))"
    using pad2_idem[OF ds nm(2)] .
  have pad: "addLeadingZeros (ys @ ''-'' @ ms @ ''-'' @ ds) = canonical_iso y m d"
    using addLeadingZeros_fields[OF nd ly lm ld]
    by (simp add: canonical_iso_def ys_def pm pd)
  have p: "Date_parse env (canonical_iso y m d) = Some (MakeDay y (m - 1) d * msPerDay)"
    using y m d by (intro Date_parse_canonical) simp_all
  show ?thesis
    using iso pad p
    by (simp add: nativeDateHelper_def NativeDate_constructor_def isDate_def typeof_def
        warn_if_invalid_def Date_toString_is_Invalid_Date_def ys_def)
qed

lemma civil_of_time:
  "YearFromTime t = civil_year (Day t)"
  "MonthFromTime t + 1 = civil_month (Day t)"
  "DateFromTime t = civil_day (Day t)"
  using civil_eq_iff[of t "Day t * msPerDay"]
  by (simp_all add: civil_year_def civil_month_def civil_day_def Day_of_days)

lemma civil_ranges:
  "1 \<le> civil_month D" "civil_month D \<le> 12"
  "1 \<le> civil_day D" "civil_day D \<le> daysInMonthOf (civil_year D) (civil_month D)"
  using MonthFromTime_range[of "D * msPerDay"] DateFromTime_range[of "D * msPerDay"]
  by (simp_all add: civil_year_def civil_month_def civil_day_def)

lemma MakeDay_civil: "MakeDay (civil_year D) (civil_month D - 1) (civil_day D) = D"
  using MakeDay_of_civil[of "D * msPerDay"]
  by (simp add: civil_year_def civil_month_def civil_day_def Day_of_days)

lemma getters_civil:
  assumes "generatedDate this = Some t"
  shows "year env this = Some (civil_year (Day (LocalTime env t)))"
    and "month env this = Some (civil_month (Day (LocalTime env t)))"
    and "day env this = Some (civil_day (Day (LocalTime env t)))"
  using assms civil_of_time[of "LocalTime env t"] by simp_all

lemma isoString_civil:
  assumes "generatedDate this = Some t"
    and "1000 \<le> civil_year (Day (LocalTime env t))" "civil_year (Day (LocalTime env t)) \<le> 9999"
  shows "isoString env this = iso_of_day (Day (LocalTime env t))"
proof -
  define L where "L = Day (LocalTime env t)"
  have "civil_day L \<le> 31"
    using civil_ranges(4)[of L] daysInMonthOf_le_31[of "civil_year L" "civil_month L"] by simp
  then show ?thesis
    using assms civil_ranges(1,2,3)[of L] getters_civil[OF assms(1), of env]
    by (simp add: isoString_def iso_of_day_def toIso_canonical L_def)
qed

lemma Date_parse_iso_of_day:
  assumes "1000 \<le> civil_year D" "civil_year D \<le> 9999"
  shows "Date_parse env (iso_of_day D) = Some (D * msPerDay)"
  using assms civil_ranges[of D] Date_parse_canonical[of "civil_year D" "civil_month D" "civil_day D" env]
  by (simp add: iso_of_day_def MakeDay_civil)

lemma updateGeneratedDate_midnight:
  assumes g: "generatedDate this = Some t"
    and y: "1000 \<le> civil_year (Day (LocalTime env t))"
           "civil_year (Day (LocalTime env t)) \<le> 9999"
  shows "updateGeneratedDate env this =
           this\<lparr>dateString := iso_of_day (Day (LocalTime env t)),
                generatedDate := Some (Day (LocalTime env t) * msPerDay)\<rparr>"
proof -
  have "toIso (year env this) (month env this) (day env this) = iso_of_day (Day (LocalTime env t))"
    using isoString_civil[OF g y] by (simp add: isoString_def)
  then show ?thesis
    using Date_parse_iso_of_day[OF y, of env] by (simp add: updateGeneratedDate_toIso)
qed

lemma civil_year_bounds:
  assumes "1000 \<le> civil_year D" "civil_year D \<le> 9999"
  shows "- 354285 \<le> D" and "D < 2932897"
proof -
  have yr: "YearFromDay D = civil_year D"
    by (simp add: civil_year_def YearFromTime_def Day_of_days)
  have "DayFromYear 1000 \<le> DayFromYear (civil_year D)"
    "DayFromYear (civil_year D + 1) \<le> DayFromYear 10000"
    using assms by (simp_all add: DayFromYear_mono)
  then show "- 354285 \<le> D" and "D < 2932897"
    using YearFromDay_lower[of D] YearFromDay_upper[of D]
    by (simp_all add: yr DayFromYear_1000 DayFromYear_10000)
qed

lemma setter_result:
  assumes tz: "\<bar>LocalTZA env\<bar> < msPerDay"
    and y: "1000 \<le> civil_year D" "civil_year D \<le> 9999"
    and w: "0 \<le> w" "w < msPerDay"
  shows "\<exists>u. TimeClip (UTC env (MakeDate D w)) = Some u \<and> Day (LocalTime env u) = D"
proof -
  define u where "u = D * msPerDay + w - LocalTZA env"
  have b: "- 354285 \<le> D" "D < 2932897" using civil_year_bounds[OF y] by simp_all
  have z: "- 86400000 < LocalTZA env" "LocalTZA env < 86400000"
    using tz by (simp_all add: msPerDay_def abs_less_iff)
  have "- 8640000000000000 \<le> u" "u \<le> 8640000000000000"
    using b w z unfolding u_def msPerDay_def by linarith+
  then have "\<bar>u\<bar> \<le> 8640000000000000"
    by (simp add: abs_le_iff)
  then have "TimeClip (UTC env (MakeDate D w)) = Some u"
    by (simp add: TimeClip_def UTC_def MakeDate_def u_def)
  moreover have "Day (LocalTime env u) = D"
    using Day_offset(1)[OF w, of D] by (simp add: LocalTime_def u_def)
  ultimately show ?thesis by blast
qed

lemma TimeWithinDay_range: "0 \<le> TimeWithinDay t" "TimeWithinDay t < msPerDay"
  by (simp_all add: TimeWithinDay_def msPerDay_def)

lemma MakeDay_add_date: "MakeDay y mn (dt + n) = MakeDay y mn dt + n"
  by (simp add: MakeDay_def Let_def)

lemma subtract_is_add_negated:
  "subtractYear env n this = addYear env (- n) this"
  "subtractMonth env n this = addMonth env (- n) this"
  "subtractDay env n this = addDay env (- n) this"
proof -
  have "js_sub a (Some n) = js_add a (Some (- n))" for a
    by (cases a) (simp_all add: js_sub_def js_add_def)
  then show "subtractYear env n this = addYear env (- n) this"
    "subtractMonth env n this = addMonth env (- n) this"
    "subtractDay env n this = addDay env (- n) this"
    by (simp_all add: subtractYear_def addYear_def subtractMonth_def addMonth_def
        subtractDay_def addDay_def)
qed

lemma rebuild_after_setter:
  assumes tz: "\<bar>LocalTZA env\<bar> < msPerDay"
    and y: "1000 \<le> civil_year D" "civil_year D \<le> 9999"
    and w: "0 \<le> w" "w < msPerDay"
  shows "updateGeneratedDate env (this\<lparr>generatedDate := TimeClip (UTC env (MakeDate D w))\<rparr>)
           = this\<lparr>dateString := iso_of_day D, generatedDate := Some (D * msPerDay)\<rparr>"
proof -
  obtain u where u: "TimeClip (UTC env (MakeDate D w)) = Some u" "Day (LocalTime env u) = D"
    using setter_result[OF tz y w] by blast
  have "generatedDate (this\<lparr>generatedDate := Some u\<rparr>) = Some u" by simp
  then show ?thesis
    using updateGeneratedDate_midnight[of "this\<lparr>generatedDate := Some u\<rparr>" u env] y u
    by simp
qed

lemma addDay_as_day_number:
  assumes g: "generatedDate this = Some t"
    and tz: "\<bar>LocalTZA env\<bar> < msPerDay"
    and y: "1000 \<le> civil_year (Day (LocalTime env t) + n)"
           "civil_year (Day (LocalTime env t) + n) \<le> 9999"
  shows "addDay env n this =
           this\<lparr>dateString := iso_of_day (Day (LocalTime env t) + n),
                generatedDate := Some ((Day (LocalTime env t) + n) * msPerDay)\<rparr>"
proof -
  define lt where "lt = LocalTime env t"
  have "MakeDay (YearFromTime lt) (MonthFromTime lt) (DateFromTime lt + n) = Day lt + n"
    by (simp add: MakeDay_add_date MakeDay_of_civil)
  then have "Date_setDate env (js_add (day env this) (Some n)) (generatedDate this)
      = TimeClip (UTC env (MakeDate (Day lt + n) (TimeWithinDay lt)))"
    using g by (simp add: Date_setDate_def Let_def lt_def)
  then show ?thesis
    using rebuild_after_setter[OF tz y TimeWithinDay_range]
    by (simp add: addDay_def lt_def)
qed

lemma addMonth_as_day_number:
  assumes g: "generatedDate this = Some t"
    and tz: "\<bar>LocalTZA env\<bar> < msPerDay"
    and D: "D = MakeDay (civil_year (Day (LocalTime env t)))
                        (civil_month (Day (LocalTime env t)) + n)
                        (civil_day (Day (LocalTime env t)))"
    and y: "1000 \<le> civil_year D" "civil_year D \<le> 9999"
  shows "addMonth env n this =
           this\<lparr>dateString := iso_of_day D, generatedDate := Some (D * msPerDay)\<rparr>"
proof -
  define lt where "lt = LocalTime env t"
  have "Date_setMonth env (js_add (month env this) (Some n)) (generatedDate this)
      = TimeClip (UTC env (MakeDate D (TimeWithinDay lt)))"
    using g civil_of_time[of lt] by (simp add: Date_setMonth_def Let_def lt_def D)
  then show ?thesis
    using rebuild_after_setter[OF tz y TimeWithinDay_range]
    by (simp add: addMonth_def lt_def)
qed

lemma addYear_as_day_number:
  assumes g: "generatedDate this = Some t"
    and tz: "\<bar>LocalTZA env\<bar> < msPerDay"
    and D: "D = MakeDay (civil_year (Day (LocalTime env t)) + n)
                        (civil_month (Day (LocalTime env t)) - 1)
                        (civil_day (Day (LocalTime env t)))"
    and y: "1000 \<le> civil_year D" "civil_year D \<le> 9999"
  shows "addYear env n this =
           this\<lparr>dateString := iso_of_day D, generatedDate := Some (D * msPerDay)\<rparr>"
proof -
  define lt where "lt = LocalTime env t"
  have m: "MonthFromTime lt = civil_month (Day lt) - 1"
    using civil_of_time(2)[of lt] by simp
  have "Date_setFullYear env (js_add (year env this) (Some n)) (generatedDate this)
      = TimeClip (UTC env (MakeDate D (TimeWithinDay lt)))"
    using g civil_of_time(1,3)[of lt] by (simp add: Date_setFullYear_def Let_def lt_def D m[unfolded lt_def])
  then show ?thesis
    using rebuild_after_setter[OF tz y TimeWithinDay_range]
    by (simp add: addYear_def lt_def)
qed

section \<open>Further properties\<close>

text \<open>
  Healing: every input that is not an object and not a matching ISO string (\<^verbatim>\<open>undefined\<close>,
  a number, a boolean, a string outside the grammar) gives an instance with an empty
  \<open>dateString\<close>, \<open>isHealed\<close> set and the current instant as its date, writes no warning, and
  shows the local calendar date of the current instant.
\<close>

theorem healing_of_unrecognised_input:
  assumes "typeof v \<noteq> ''object''" and "\<not> isIso v"
  shows "nativeDateHelper env v =
           Inr (\<lparr>generatedDate = Some (currentTime env), dateString = [], isHealed = True\<rparr>, [])
         \<and> isoString env
              \<lparr>generatedDate = Some (currentTime env), dateString = [], isHealed = True\<rparr>
            = toIso (Some (YearFromTime (LocalTime env (currentTime env))))
                    (Some (MonthFromTime (LocalTime env (currentTime env)) + 1))
                    (Some (DateFromTime (LocalTime env (currentTime env))))"
  using healed_construction[OF assms, of env] by simp

theorem healing_of_unrecognised_input_witness:
  "typeof JUndefined \<noteq> ''object'' \<and> \<not> isIso JUndefined
   \<and> nativeDateHelper runtime_utc JUndefined =
       Inr (\<lparr>generatedDate = Some 1793577600000, dateString = [], isHealed = True\<rparr>, [])
   \<and> isoString runtime_utc
        \<lparr>generatedDate = Some 1793577600000, dateString = [], isHealed = True\<rparr>
      = ''2026-11-02''"
proof -
  have h: "typeof JUndefined \<noteq> ''object''" "\<not> isIso JUndefined"
    by (simp_all add: typeof_def isIso_def)
  have c: "currentTime runtime_utc = 1793577600000" "LocalTime runtime_utc t = t" for t
    by (simp_all add: runtime_utc_def LocalTime_def)
  have v: "YearFromTime 1793577600000 = 2026" "MonthFromTime 1793577600000 = 10"
    "DateFromTime 1793577600000 = 2"
    by (simp_all add: civil_defs)
  have i: "toIso (Some 2026) (Some 11) (Some 2) = ''2026-11-02''"
    by (simp add: text_defs string_of_nat.simps)
  show ?thesis
    using healing_of_unrecognised_input[OF h, of runtime_utc] h by (simp add: c v i)
qed

text \<open>
  The polarity of the comparisons: for two valid instances, \<^verbatim>\<open>isBefore(other)\<close> is true
  exactly when the local calendar day of \<open>this\<close> is later than that of \<open>other\<close>,
  \<^verbatim>\<open>isAfter(other)\<close> exactly when it is earlier, and \<^verbatim>\<open>isEqual(other)\<close> exactly when the two
  days are the same; the time of day plays no part.
\<close>

theorem comparison_by_local_day:
  assumes "generatedDate this = Some s" and "generatedDate secondDate = Some t"
  shows "(isBefore env this secondDate \<longleftrightarrow> Day (LocalTime env t) < Day (LocalTime env s))
         \<and> (isAfter env this secondDate \<longleftrightarrow> Day (LocalTime env s) < Day (LocalTime env t))
         \<and> (isEqual env this secondDate \<longleftrightarrow> Day (LocalTime env s) = Day (LocalTime env t))"
  using isBefore_iff_later_day[OF assms] isAfter_iff_earlier_day[OF assms]
    isEqual_iff_same_day[OF assms]
  by simp

theorem comparison_by_local_day_witness:
  "generatedDate \<lparr>generatedDate = Some 1709251200000, dateString = ''2024-03-01'', isHealed = False\<rparr>
     = Some 1709251200000
   \<and> generatedDate \<lparr>generatedDate = Some 1709164800000, dateString = ''2024-02-29'', isHealed = False\<rparr>
     = Some 1709164800000
   \<and> isBefore runtime_utc
        \<lparr>generatedDate = Some 1709251200000, dateString = ''2024-03-01'', isHealed = False\<rparr>
        \<lparr>generatedDate = Some 1709164800000, dateString = ''2024-02-29'', isHealed = False\<rparr>
   \<and> \<not> isAfter runtime_utc
        \<lparr>generatedDate = Some 1709251200000, dateString = ''2024-03-01'', isHealed = False\<rparr>
        \<lparr>generatedDate = Some 1709164800000, dateString = ''2024-02-29'', isHealed = False\<rparr>
   \<and> \<not> isEqual runtime_utc
        \<lparr>generatedDate = Some 1709251200000, dateString = ''2024-03-01'', isHealed = False\<rparr>
        \<lparr>generatedDate = Some 1709164800000, dateString = ''2024-02-29'', isHealed = False\<rparr>"
proof -
  define a where
    "a = \<lparr>generatedDate = Some 1709251200000, dateString = ''2024-03-01'', isHealed = False\<rparr>"
  define b where
    "b = \<lparr>generatedDate = Some 1709164800000, dateString = ''2024-02-29'', isHealed = False\<rparr>"
  have g: "generatedDate a = Some 1709251200000" "generatedDate b = Some 1709164800000"
    by (simp_all add: a_def b_def)
  have d: "Day (LocalTime runtime_utc 1709251200000) = 19783"
    "Day (LocalTime runtime_utc 1709164800000) = 19782"
    by (simp_all add: LocalTime_def runtime_utc_def Day_def msPerDay_def)
  show ?thesis
    using comparison_by_local_day[OF g, of runtime_utc] g
    unfolding a_def[symmetric] b_def[symmetric] by (simp add: d)
qed

text \<open>
  \<^verbatim>\<open>isValidDate()\<close> is true exactly when the wrapped date is not the Invalid Date: the
  year, month and day a \<^verbatim>\<open>Date\<close> reports always form a calendar date.
\<close>

theorem isValidDate_iff_not_invalid_date:
  "isValidDate env this \<longleftrightarrow> generatedDate this \<noteq> None"
  by (rule isValidDate_iff_valid_instant)

text \<open>
  \<open>isHealed\<close> is set at construction and no arithmetic method changes it.
\<close>

theorem isHealed_unchanged:
  "isHealed (addYear env n this) = isHealed this
   \<and> isHealed (addMonth env n this) = isHealed this
   \<and> isHealed (addDay env n this) = isHealed this
   \<and> isHealed (subtractYear env n this) = isHealed this
   \<and> isHealed (subtractMonth env n this) = isHealed this
   \<and> isHealed (subtractDay env n this) = isHealed this"
  by (simp add: addYear_def addMonth_def addDay_def subtractYear_def subtractMonth_def
      subtractDay_def updateGeneratedDate_toIso)

text \<open>
  The calendar helpers on the examples of the specification: 2000 and 2024 are leap
  years, 1900 and 2023 are not; February has 29 days in 2024 and 28 in 2023, April has 30
  and January 31.
\<close>

theorem calendar_examples:
  "isLeapYear (Some 2000) \<and> \<not> isLeapYear (Some 1900) \<and> isLeapYear (Some 2024)
   \<and> \<not> isLeapYear (Some 2023)
   \<and> daysInMonth (Some 2) (Some 2024) = Some 29 \<and> daysInMonth (Some 2) (Some 2023) = Some 28
   \<and> daysInMonth (Some 4) (Some 2023) = Some 30 \<and> daysInMonth (Some 1) (Some 2023) = Some 31"
  by (simp add: isLeapYear_spec daysInMonth_spec spec_isLeapYear_def spec_daysInMonth_def)

theorem isValidDate_iff_not_invalid_date_witness:
  "isValidDate runtime_utc
     \<lparr>generatedDate = Some 1709251200000, dateString = ''2024-03-01'', isHealed = False\<rparr>
   \<and> generatedDate
        \<lparr>generatedDate = Some 1709251200000, dateString = ''2024-03-01'', isHealed = False\<rparr>
      \<noteq> None"
  using isValidDate_iff_not_invalid_date[of runtime_utc
      "\<lparr>generatedDate = Some 1709251200000, dateString = ''2024-03-01'', isHealed = False\<rparr>"]
  by simp

section \<open>Construction and round trip at or east of UTC\<close>

text \<open>
  In a runtime whose local time is UTC or ahead of it by less than a day, an instance
  built from a string of the grammar that names a calendar date (a year from 1000 to 2999,
  month and day with or without their leading zero) is not healed, wraps midnight UTC of
  that date, and shows it: \<open>dateString\<close> and \<open>isoString\<close> are the canonical text, year,
  month and day are those of the string, and both validations succeed.
\<close>

theorem construction_from_iso_text:
  assumes "0 \<le> LocalTZA env" and "LocalTZA env < msPerDay"
    and "1000 \<le> y" and "y \<le> 2999"
    and "1 \<le> m" and "m \<le> 12"
    and "1 \<le> d" and "d \<le> spec_daysInMonth m y"
    and "ms = string_of_nat (nat m) \<or> ms = pad2 (string_of_nat (nat m))"
    and "ds = string_of_nat (nat d) \<or> ds = pad2 (string_of_nat (nat d))"
  shows "\<exists>this. nativeDateHelper env (JString (string_of_nat (nat y) @ ''-'' @ ms @ ''-'' @ ds))
                   = Inr (this, [])
           \<and> isHealed this = False
           \<and> generatedDate this = Some (MakeDay y (m - 1) d * msPerDay)
           \<and> dateString this = canonical_iso y m d
           \<and> isoString env this = canonical_iso y m d
           \<and> year env this = Some y \<and> month env this = Some m \<and> day env this = Some d
           \<and> isValidDateString env this \<and> isValidDate env this"
proof -
  define this where
    "this = \<lparr>generatedDate = Some (MakeDay y (m - 1) d * msPerDay),
             dateString = canonical_iso y m d, isHealed = False\<rparr>"
  have dm: "d \<le> daysInMonthOf y m" using assms(8) by (simp add: daysInMonthOf_spec)
  have d31: "d \<le> 31" using dm daysInMonthOf_le_31[of y m] by simp
  have c: "nativeDateHelper env (JString (string_of_nat (nat y) @ ''-'' @ ms @ ''-'' @ ds))
             = Inr (this, [])"
    unfolding this_def
    using assms(3-7) dm assms(9,10) by (rule construct_iso_text)
  have g: "generatedDate this = Some (MakeDay y (m - 1) d * msPerDay)"
    by (simp add: this_def)
  have ld: "Day (LocalTime env (MakeDay y (m - 1) d * msPerDay)) = MakeDay y (m - 1) d"
    using assms(1,2) by (rule local_day_east)
  note f = fields_of_day[OF g ld assms(5,6,7) dm]
  have i: "isoString env this = canonical_iso y m d"
    using f assms(3-7) d31 by (simp add: isoString_def toIso_canonical)
  have v: "isValidDateString env this"
    using i by (simp add: isValidDateString_def isoString_def this_def)
  have w: "isValidDate env this"
    using g by (simp add: isValidDate_iff_valid_instant)
  show ?thesis
    using c g i f v w by (intro exI[of _ this]) (simp add: this_def)
qed

theorem construction_from_iso_text_witness:
  "0 \<le> LocalTZA runtime_utc \<and> LocalTZA runtime_utc < msPerDay
   \<and> (1::int) \<le> 29 \<and> (29::int) \<le> spec_daysInMonth 2 2024
   \<and> (\<exists>this. nativeDateHelper runtime_utc (JString ''2024-2-29'') = Inr (this, [])
         \<and> isHealed this = False
         \<and> dateString this = ''2024-02-29''
         \<and> isoString runtime_utc this = ''2024-02-29''
         \<and> year runtime_utc this = Some 2024 \<and> month runtime_utc this = Some 2
         \<and> day runtime_utc this = Some 29
         \<and> isValidDateString runtime_utc this \<and> isValidDate runtime_utc this)"
proof -
  have tz: "0 \<le> LocalTZA runtime_utc" "LocalTZA runtime_utc < msPerDay"
    by (simp_all add: runtime_utc_def msPerDay_def)
  have dm: "(29::int) \<le> spec_daysInMonth 2 2024"
    by (simp add: spec_daysInMonth_def spec_isLeapYear_def)
  have s: "string_of_nat (nat 2024) = ''2024''" "string_of_nat (nat 2) = ''2''"
    "pad2 (string_of_nat (nat 29)) = ''29''"
    by (simp_all add: string_of_nat.simps digit_char_def pad2_def)
  have c: "canonical_iso 2024 2 29 = ''2024-02-29''"
    by (simp add: canonical_iso_def string_of_nat.simps digit_char_def pad2_def)
  obtain this where
    "nativeDateHelper runtime_utc
       (JString (string_of_nat (nat 2024) @ ''-'' @ string_of_nat (nat 2) @ ''-''
                 @ pad2 (string_of_nat (nat 29)))) = Inr (this, [])"
    "isHealed this = False" "dateString this = canonical_iso 2024 2 29"
    "isoString runtime_utc this = canonical_iso 2024 2 29"
    "year runtime_utc this = Some 2024" "month runtime_utc this = Some 2"
    "day runtime_utc this = Some 29"
    "isValidDateString runtime_utc this" "isValidDate runtime_utc this"
    using construction_from_iso_text[OF tz, of 2024 2 29 "string_of_nat (nat 2)"
        "pad2 (string_of_nat (nat 29))"] dm
    by auto
  then show ?thesis
    using tz dm unfolding s c by auto
qed

text \<open>
  Round trip: in such a runtime, for every instance with a valid date whose year is
  between 1000 and 2999, \<^verbatim>\<open>nativeDateHelper(d.isoString).isEqual(d)\<close> is true.
\<close>

theorem roundtrip_east_of_utc:
  assumes "0 \<le> LocalTZA env" and "LocalTZA env < msPerDay"
    and "year env this = Some y" and "1000 \<le> y" and "y \<le> 2999"
  shows "\<exists>that. nativeDateHelper env (JString (isoString env this)) = Inr (that, [])
           \<and> isEqual env that this"
proof -
  obtain t where g: "generatedDate this = Some t"
    using assms(3) by (cases "generatedDate this") (simp_all add: year_def Date_getFullYear_def)
  define L where "L = Day (LocalTime env t)"
  have yl: "civil_year L = y"
    using getters_civil(1)[OF g, of env] assms(3) by (simp add: L_def)
  have i: "isoString env this = canonical_iso (civil_year L) (civil_month L) (civil_day L)"
    using isoString_civil[OF g, of env] assms(4,5) yl by (simp add: L_def iso_of_day_def)
  define that where
    "that = \<lparr>generatedDate = Some (L * msPerDay),
             dateString = canonical_iso (civil_year L) (civil_month L) (civil_day L),
             isHealed = False\<rparr>"
  have "nativeDateHelper env
          (JString (string_of_nat (nat (civil_year L)) @ ''-''
                    @ pad2 (string_of_nat (nat (civil_month L))) @ ''-''
                    @ pad2 (string_of_nat (nat (civil_day L)))))
        = Inr (\<lparr>generatedDate =
                   Some (MakeDay (civil_year L) (civil_month L - 1) (civil_day L) * msPerDay),
                 dateString = canonical_iso (civil_year L) (civil_month L) (civil_day L),
                 isHealed = False\<rparr>, [])"
    using assms(4,5) yl civil_ranges[of L] by (intro construct_iso_text) simp_all
  then have c: "nativeDateHelper env (JString (isoString env this)) = Inr (that, [])"
    by (simp add: i canonical_iso_def that_def MakeDay_civil)
  have "Day (LocalTime env (L * msPerDay)) = L"
    using assms(1,2) by (rule local_day_east)
  then have "isEqual env that this"
    using isEqual_iff_same_day[of that "L * msPerDay" this t env] g
    by (simp add: that_def L_def)
  then show ?thesis using c by blast
qed

theorem roundtrip_east_of_utc_witness:
  "0 \<le> LocalTZA runtime_utc \<and> LocalTZA runtime_utc < msPerDay
   \<and> year runtime_utc
        \<lparr>generatedDate = Some 1709251200000, dateString = ''2024-03-01'', isHealed = False\<rparr>
      = Some 2024
   \<and> (\<exists>that. nativeDateHelper runtime_utc (JString ''2024-03-01'') = Inr (that, [])
         \<and> isEqual runtime_utc that
              \<lparr>generatedDate = Some 1709251200000, dateString = ''2024-03-01'',
                isHealed = False\<rparr>)"
proof -
  define a where
    "a = \<lparr>generatedDate = Some 1709251200000, dateString = ''2024-03-01'', isHealed = False\<rparr>"
  have tz: "0 \<le> LocalTZA runtime_utc" "LocalTZA runtime_utc < msPerDay"
    by (simp_all add: runtime_utc_def msPerDay_def)
  have lt: "LocalTime runtime_utc t = t" for t
    by (simp add: LocalTime_def runtime_utc_def)
  have c: "YearFromTime 1709251200000 = 2024" "MonthFromTime 1709251200000 = 2"
    "DateFromTime 1709251200000 = 1"
    by (simp_all add: civil_defs)
  have y: "year runtime_utc a = Some 2024"
    by (simp add: a_def lt c)
  have i: "isoString runtime_utc a = ''2024-03-01''"
    by (simp add: a_def isoString_def lt c text_defs string_of_nat.simps)
  obtain that where
    "nativeDateHelper runtime_utc (JString (isoString runtime_utc a)) = Inr (that, [])"
    "isEqual runtime_utc that a"
    using roundtrip_east_of_utc[OF tz y] by auto
  then have "\<exists>that. nativeDateHelper runtime_utc (JString ''2024-03-01'') = Inr (that, [])
      \<and> isEqual runtime_utc that a"
    unfolding i by blast
  then show ?thesis
    using tz y unfolding a_def by simp
qed

section \<open>Arithmetic in terms of day numbers\<close>

text \<open>
  The arithmetic methods in closed form. The offset of local time is less than a day in
  either direction, the instance holds a valid date whose local day number is
  \<open>L = Day (LocalTime env t)\<close>, and the year of the new date has four digits. Then the
  instance after the call wraps midnight UTC of the new day, with that day's canonical
  text as \<open>dateString\<close>; the time of day is gone.

  \<^verbatim>\<open>addDay(n)\<close> moves to day \<open>L + n\<close>, whatever the month lengths and leap years in
  between, and \<^verbatim>\<open>subtractDay(n)\<close> is \<^verbatim>\<open>addDay(-n)\<close>.
\<close>

theorem addDay_exact:
  assumes "generatedDate this = Some t" and "\<bar>LocalTZA env\<bar> < msPerDay"
    and "1000 \<le> civil_year (Day (LocalTime env t) + n)"
    and "civil_year (Day (LocalTime env t) + n) \<le> 9999"
  shows "addDay env n this =
           this\<lparr>dateString := iso_of_day (Day (LocalTime env t) + n),
                generatedDate := Some ((Day (LocalTime env t) + n) * msPerDay)\<rparr>
         \<and> subtractDay env (- n) this = addDay env n this"
  using addDay_as_day_number[OF assms] subtract_is_add_negated(3)[of env "- n" this]
  by simp

theorem addDay_exact_witness:
  "generatedDate \<lparr>generatedDate = Some 1735603200000, dateString = ''2024-12-31'', isHealed = False\<rparr>
     = Some 1735603200000
   \<and> \<bar>LocalTZA runtime_utc\<bar> < msPerDay
   \<and> addDay runtime_utc 1
        \<lparr>generatedDate = Some 1735603200000, dateString = ''2024-12-31'', isHealed = False\<rparr>
      = \<lparr>generatedDate = Some 1735689600000, dateString = ''2025-01-01'', isHealed = False\<rparr>"
proof -
  define a where
    "a = \<lparr>generatedDate = Some 1735603200000, dateString = ''2024-12-31'', isHealed = False\<rparr>"
  have g: "generatedDate a = Some 1735603200000" by (simp add: a_def)
  have tz: "\<bar>LocalTZA runtime_utc\<bar> < msPerDay"
    by (simp add: runtime_utc_def msPerDay_def)
  have L: "Day (LocalTime runtime_utc 1735603200000) + 1 = 20089"
    by (simp add: LocalTime_def runtime_utc_def Day_def msPerDay_def)
  have c: "civil_year 20089 = 2025" "civil_month 20089 = 1" "civil_day 20089 = 1"
    by (simp_all add: civil_year_def civil_month_def civil_day_def civil_defs)
  have i: "iso_of_day 20089 = ''2025-01-01''"
    by (simp add: iso_of_day_def c canonical_iso_def string_of_nat.simps digit_char_def pad2_def)
  have "addDay runtime_utc 1 a =
          a\<lparr>dateString := ''2025-01-01'', generatedDate := Some (20089 * msPerDay)\<rparr>"
    using addDay_exact[OF g tz, of 1] by (simp add: L c i)
  then show ?thesis
    using g tz unfolding a_def by (simp add: msPerDay_def)
qed

text \<open>
  \<^verbatim>\<open>addMonth(n)\<close> hands \<^verbatim>\<open>setMonth\<close> the month counted from 1 plus \<open>n\<close>, where \<^verbatim>\<open>setMonth\<close>
  counts from 0. With \<open>y\<close>, \<open>m\<close> (from 1) and \<open>d\<close> the local year, month and day, the new day
  is \<open>MakeDay y ((m - 1) + (n + 1)) d\<close>: the date \<open>n + 1\<close> months on, with the carry of
  \<^verbatim>\<open>MakeDay\<close> into the year and, for a day beyond the month's end, into the next month.
\<close>

theorem addMonth_moves_n_plus_1_months:
  assumes "generatedDate this = Some t" and "\<bar>LocalTZA env\<bar> < msPerDay"
    and "D = MakeDay (civil_year (Day (LocalTime env t)))
                     ((civil_month (Day (LocalTime env t)) - 1) + (n + 1))
                     (civil_day (Day (LocalTime env t)))"
    and "1000 \<le> civil_year D" and "civil_year D \<le> 9999"
  shows "addMonth env n this =
           this\<lparr>dateString := iso_of_day D, generatedDate := Some (D * msPerDay)\<rparr>"
proof -
  have D: "D = MakeDay (civil_year (Day (LocalTime env t)))
                    (civil_month (Day (LocalTime env t)) + n)
                    (civil_day (Day (LocalTime env t)))"
    using assms(3) by (simp add: algebra_simps)
  show ?thesis
    using assms(1,2) D assms(4,5) by (rule addMonth_as_day_number)
qed

theorem addMonth_moves_n_plus_1_months_witness:
  "generatedDate \<lparr>generatedDate = Some 1705276800000, dateString = ''2024-01-15'', isHealed = False\<rparr>
     = Some 1705276800000
   \<and> \<bar>LocalTZA runtime_utc\<bar> < msPerDay
   \<and> addMonth runtime_utc 1
        \<lparr>generatedDate = Some 1705276800000, dateString = ''2024-01-15'', isHealed = False\<rparr>
      = \<lparr>generatedDate = Some 1710460800000, dateString = ''2024-03-15'', isHealed = False\<rparr>"
proof -
  define a where
    "a = \<lparr>generatedDate = Some 1705276800000, dateString = ''2024-01-15'', isHealed = False\<rparr>"
  have g: "generatedDate a = Some 1705276800000" by (simp add: a_def)
  have tz: "\<bar>LocalTZA runtime_utc\<bar> < msPerDay"
    by (simp add: runtime_utc_def msPerDay_def)
  have L: "Day (LocalTime runtime_utc 1705276800000) = 19737"
    by (simp add: LocalTime_def runtime_utc_def Day_def msPerDay_def)
  have b: "civil_year 19737 = 2024" "civil_month 19737 = 1" "civil_day 19737 = 15"
    by (simp_all add: civil_year_def civil_month_def civil_day_def civil_defs)
  have D: "(19797::int) = MakeDay 2024 ((1 - 1) + (1 + 1)) 15"
    by (simp add: MakeDay_def DayFromYear_def DaysInYear_def DaysBeforeMonth_def)
  have c: "civil_year 19797 = 2024" "civil_month 19797 = 3" "civil_day 19797 = 15"
    by (simp_all add: civil_year_def civil_month_def civil_day_def civil_defs)
  have i: "iso_of_day 19797 = ''2024-03-15''"
    by (simp add: iso_of_day_def c canonical_iso_def string_of_nat.simps digit_char_def pad2_def)
  have "addMonth runtime_utc 1 a =
          a\<lparr>dateString := iso_of_day 19797, generatedDate := Some (19797 * msPerDay)\<rparr>"
    using D by (intro addMonth_moves_n_plus_1_months[OF g tz]) (simp_all add: L b c)
  then show ?thesis
    using g tz unfolding a_def by (simp add: i msPerDay_def)
qed

text \<open>
  \<^verbatim>\<open>addYear(n)\<close> moves to the same month and day of year \<open>y + n\<close>, with the carry of
  \<^verbatim>\<open>MakeDay\<close> when that day does not exist (29 February).
\<close>

theorem addYear_exact:
  assumes "generatedDate this = Some t" and "\<bar>LocalTZA env\<bar> < msPerDay"
    and "D = MakeDay (civil_year (Day (LocalTime env t)) + n)
                     (civil_month (Day (LocalTime env t)) - 1)
                     (civil_day (Day (LocalTime env t)))"
    and "1000 \<le> civil_year D" and "civil_year D \<le> 9999"
  shows "addYear env n this =
           this\<lparr>dateString := iso_of_day D, generatedDate := Some (D * msPerDay)\<rparr>"
  using assms by (rule addYear_as_day_number)

theorem addYear_exact_witness:
  "generatedDate \<lparr>generatedDate = Some 1709164800000, dateString = ''2024-02-29'', isHealed = False\<rparr>
     = Some 1709164800000
   \<and> \<bar>LocalTZA runtime_utc\<bar> < msPerDay
   \<and> addYear runtime_utc 1
        \<lparr>generatedDate = Some 1709164800000, dateString = ''2024-02-29'', isHealed = False\<rparr>
      = \<lparr>generatedDate = Some 1740787200000, dateString = ''2025-03-01'', isHealed = False\<rparr>"
proof -
  define a where
    "a = \<lparr>generatedDate = Some 1709164800000, dateString = ''2024-02-29'', isHealed = False\<rparr>"
  have g: "generatedDate a = Some 1709164800000" by (simp add: a_def)
  have tz: "\<bar>LocalTZA runtime_utc\<bar> < msPerDay"
    by (simp add: runtime_utc_def msPerDay_def)
  have L: "Day (LocalTime runtime_utc 1709164800000) = 19782"
    by (simp add: LocalTime_def runtime_utc_def Day_def msPerDay_def)
  have b: "civil_year 19782 = 2024" "civil_month 19782 = 2" "civil_day 19782 = 29"
    by (simp_all add: civil_year_def civil_month_def civil_day_def civil_defs)
  have D: "(20148::int) = MakeDay (2024 + 1) (2 - 1) 29"
    by (simp add: MakeDay_def DayFromYear_def DaysInYear_def DaysBeforeMonth_def)
  have c: "civil_year 20148 = 2025" "civil_month 20148 = 3" "civil_day 20148 = 1"
    by (simp_all add: civil_year_def civil_month_def civil_day_def civil_defs)
  have i: "iso_of_day 20148 = ''2025-03-01''"
    by (simp add: iso_of_day_def c canonical_iso_def string_of_nat.simps digit_char_def pad2_def)
  have "addYear runtime_utc 1 a =
          a\<lparr>dateString := iso_of_day 20148, generatedDate := Some (20148 * msPerDay)\<rparr>"
    using D by (intro addYear_exact[OF g tz]) (simp_all add: L b c)
  then show ?thesis
    using g tz unfolding a_def by (simp add: i msPerDay_def)
qed

lemma local_day_west:
  assumes "- msPerDay \<le> LocalTZA env" "LocalTZA env < 0"
  shows "Day (LocalTime env (D * msPerDay)) = D - 1"
proof -
  have eq: "LocalTime env (D * msPerDay) = (D - 1) * msPerDay + (LocalTZA env + msPerDay)"
    by (simp add: LocalTime_def algebra_simps)
  have "0 \<le> LocalTZA env + msPerDay" "LocalTZA env + msPerDay < msPerDay"
    using assms by simp_all
  then show ?thesis
    unfolding eq by (rule Day_offset(1))
qed

section \<open>The shown date and the time zone\<close>

text \<open>
  Every instance built from an ISO string, and every instance after an arithmetic call,
  wraps midnight UTC of some day \<open>D\<close>. Its year, month, day and \<open>isoString\<close> are read in
  local time: they are those of \<open>D\<close> when local time is UTC or ahead of it, and those of
  the day before \<open>D\<close> when local time is behind UTC.
\<close>

theorem shown_date_of_midnight_utc:
  assumes "generatedDate this = Some (D * msPerDay)" and "\<bar>LocalTZA env\<bar> < msPerDay"
    and "1000 \<le> civil_year (D - 1)" and "civil_year D \<le> 9999"
  shows "isoString env this = (if 0 \<le> LocalTZA env then iso_of_day D else iso_of_day (D - 1))"
proof -
  have yb: "civil_year (D - 1) \<le> civil_year D"
    using YearFromDay_mono[of "D - 1" D]
    by (simp add: civil_year_def YearFromTime_def Day_of_days)
  have tz: "- msPerDay < LocalTZA env" "LocalTZA env < msPerDay"
    using assms(2) by (simp_all add: abs_less_iff)
  show ?thesis
  proof (cases "0 \<le> LocalTZA env")
    case True
    then have "Day (LocalTime env (D * msPerDay)) = D"
      using tz by (intro local_day_east) simp_all
    then show ?thesis
      using isoString_civil[OF assms(1), of env] assms(3,4) yb True by simp
  next
    case False
    then have "Day (LocalTime env (D * msPerDay)) = D - 1"
      using tz by (intro local_day_west) simp_all
    then show ?thesis
      using isoString_civil[OF assms(1), of env] assms(3,4) yb False by simp
  qed
qed

theorem shown_date_of_midnight_utc_witness:
  "generatedDate \<lparr>generatedDate = Some (19783 * msPerDay), dateString = ''2024-03-01'',
                  isHealed = False\<rparr> = Some (19783 * msPerDay)
   \<and> \<bar>LocalTZA runtime_utc_minus_5\<bar> < msPerDay
   \<and> isoString runtime_utc_minus_5
        \<lparr>generatedDate = Some (19783 * msPerDay), dateString = ''2024-03-01'', isHealed = False\<rparr>
      = ''2024-02-29''"
proof -
  define a where
    "a = \<lparr>generatedDate = Some (19783 * msPerDay), dateString = ''2024-03-01'',
          isHealed = False\<rparr>"
  have g: "generatedDate a = Some (19783 * msPerDay)" by (simp add: a_def)
  have tz: "\<bar>LocalTZA runtime_utc_minus_5\<bar> < msPerDay" "\<not> 0 \<le> LocalTZA runtime_utc_minus_5"
    by (simp_all add: runtime_utc_minus_5_def msPerDay_def)
  have c: "civil_year 19783 = 2024"
    "civil_year 19782 = 2024" "civil_month 19782 = 2" "civil_day 19782 = 29"
    by (simp_all add: civil_year_def civil_month_def civil_day_def civil_defs)
  have i: "iso_of_day 19782 = ''2024-02-29''"
    by (simp add: iso_of_day_def c canonical_iso_def string_of_nat.simps digit_char_def pad2_def)
  have "isoString runtime_utc_minus_5 a = ''2024-02-29''"
    using shown_date_of_midnight_utc[OF g tz(1)] tz(2) by (simp add: c i)
  then show ?thesis
    using g tz(1) unfolding a_def by simp
qed

text \<open>
  The example of the specification, \<^verbatim>\<open>nativeDateHelper("2024-03-01").subtractDay(1)\<close>, has
  the text \<^verbatim>\<open>2024-02-29\<close> in every runtime whose local time is UTC or ahead of it by less
  than a day.
\<close>

theorem subtractDay_leap_day_east_of_utc:
  assumes "0 \<le> LocalTZA env" and "LocalTZA env < msPerDay"
  shows "\<exists>this. nativeDateHelper env (JString ''2024-03-01'') = Inr (this, [])
           \<and> isoString env (subtractDay env 1 this) = ''2024-02-29''"
proof -
  define a where
    "a = \<lparr>generatedDate = Some 1709251200000, dateString = ''2024-03-01'', isHealed = False\<rparr>"
  have g: "generatedDate a = Some (19783 * msPerDay)" by (simp add: a_def msPerDay_def)
  have tz: "\<bar>LocalTZA env\<bar> < msPerDay" using assms by simp
  have L: "Day (LocalTime env (19783 * msPerDay)) = 19783"
    using assms by (rule local_day_east)
  have c: "civil_year 19782 = 2024" "civil_month 19782 = 2" "civil_day 19782 = 29"
    by (simp_all add: civil_year_def civil_month_def civil_day_def civil_defs)
  have i: "iso_of_day 19782 = ''2024-02-29''"
    by (simp add: iso_of_day_def c canonical_iso_def string_of_nat.simps digit_char_def pad2_def)
  have s: "subtractDay env 1 a =
      a\<lparr>dateString := iso_of_day 19782, generatedDate := Some (19782 * msPerDay)\<rparr>"
    using addDay_as_day_number[OF g tz, of "- 1"]
    by (simp add: subtract_is_add_negated L c)
  have "isoString env (subtractDay env 1 a) = iso_of_day 19782"
    using isoString_civil[of "subtractDay env 1 a" "19782 * msPerDay" env]
      local_day_east[OF assms, of 19782]
    by (simp add: s c)
  then show ?thesis
    using construct_2024_03_01[of env] by (simp add: a_def i)
qed

theorem subtractDay_leap_day_east_of_utc_witness:
  "0 \<le> LocalTZA runtime_utc \<and> LocalTZA runtime_utc < msPerDay
   \<and> (\<exists>this. nativeDateHelper runtime_utc (JString ''2024-03-01'') = Inr (this, [])
         \<and> isoString runtime_utc (subtractDay runtime_utc 1 this) = ''2024-02-29'')"
proof -
  have tz: "0 \<le> LocalTZA runtime_utc" "LocalTZA runtime_utc < msPerDay"
    by (simp_all add: runtime_utc_def msPerDay_def)
  show ?thesis
    using subtractDay_leap_day_east_of_utc[OF tz] tz by simp
qed

end
